theory Spec2Isabelle
  imports Complex_Main "HOL-Library.Sublist"
begin

section \<open>Strings\<close>

text \<open>
  The tracker is browser JavaScript. Strings are modelled as \<^typ>\<open>string\<close>; the empty
  string is the only falsy string, so the source's test \<^verbatim>\<open>if (s)\<close> on a string field is
  \<open>s \<noteq> []\<close>. \<^verbatim>\<open>String.prototype.trim\<close> and \<^verbatim>\<open>toLowerCase\<close> are modelled on ASCII
  text: the white space characters are tab, line feed, vertical tab, form feed, carriage
  return and space, and the letters \<open>A\<close> to \<open>Z\<close> are the ones that change case. The
  runtime also strips the blanks outside ASCII (the no-break space, the byte order mark,
  the line and paragraph separators, the space separators of Unicode) and folds every
  cased letter; a \<^typ>\<open>char\<close> is a byte, and on text with such characters the two
  functions here do less than the runtime's.
\<close>

definition isWhitespace :: "char \<Rightarrow> bool" where
  "isWhitespace c =
     (c = CHR 0x09 \<or> c = CHR 0x0A \<or> c = CHR 0x0B \<or> c = CHR 0x0C \<or> c = CHR 0x0D \<or> c = CHR 0x20)"

definition trim :: "string \<Rightarrow> string" where
  "trim s = rev (dropWhile isWhitespace (rev (dropWhile isWhitespace s)))"

definition toLowerChar :: "char \<Rightarrow> char" where
  "toLowerChar c =
     (let n = (of_char c :: nat) in if 65 \<le> n \<and> n \<le> 90 then char_of (n + 32) else c)"

definition toLowerCase :: "string \<Rightarrow> string" where
  "toLowerCase s = map toLowerChar s"

section \<open>Password recovery, step 2 (src/App.js)\<close>

record securityQuestion =
  question :: string
  answer :: string

text \<open>
  A row of the \<^verbatim>\<open>facilities\<close> table of the multi-facility database.
  \<open>securityQuestions\<close> is \<open>None\<close> where the property is missing on the stored object;
  \<open>facility_createdAt\<close> is a time in milliseconds since the epoch.
\<close>

record facility =
  facility_id :: nat
  code :: string
  facility_name :: string
  password :: string
  region :: string
  district :: string
  securityQuestions :: "securityQuestion list option"
  facility_createdAt :: int

text \<open>
  \<^verbatim>\<open>verifySecurityAnswers\<close> reads the text of the input field
  \<^verbatim>\<open>securityAnswerRecovery<index>\<close> for every stored question; \<open>inputs index\<close> is that
  text. The \<^verbatim>\<open>forEach\<close> over the questions carries the flag \<^verbatim>\<open>allCorrect\<close>, which a
  mismatch sets to false and nothing sets back.
\<close>

fun checkAnswers :: "(nat \<Rightarrow> string) \<Rightarrow> nat \<Rightarrow> securityQuestion list \<Rightarrow> bool \<Rightarrow> bool" where
  "checkAnswers inputs index [] allCorrect = allCorrect"
| "checkAnswers inputs index (q # qs) allCorrect =
     (let userAnswer = toLowerCase (trim (inputs index));
          correctAnswer = toLowerCase (answer q)
      in checkAnswers inputs (Suc index) qs (if userAnswer \<noteq> correctAnswer then False else allCorrect))"

text \<open>
  The function maps the value of \<^verbatim>\<open>recoveryStep\<close> before the call to its value after:
  \<^verbatim>\<open>showRecoveryStep(3)\<close> is the only assignment, and the early return on a facility
  without questions and the error notification both leave the step as it was.
\<close>

definition verifySecurityAnswers :: "facility \<Rightarrow> (nat \<Rightarrow> string) \<Rightarrow> nat \<Rightarrow> nat" where
  "verifySecurityAnswers recoveryFacility inputs recoveryStep =
     (case securityQuestions recoveryFacility of
        None \<Rightarrow> recoveryStep
      | Some qs \<Rightarrow> if checkAnswers inputs 0 qs True then 3 else recoveryStep)"

text \<open>
  The demonstration facility that \<^verbatim>\<open>showDemoLogin\<close> creates.
\<close>

definition demoFacility :: facility where
  "demoFacility =
     \<lparr>facility_id = 1, code = ''DEMO001'', facility_name = ''Demo Health Center'',
      password = ''demo123'', region = ''Greater Accra'', district = ''Accra Metro'',
      securityQuestions = Some
        [\<lparr>question = ''What is your favorite color?'', answer = ''blue''\<rparr>,
         \<lparr>question = ''What is your favorite food?'', answer = ''rice''\<rparr>],
      facility_createdAt = 1704067200000\<rparr>"

section \<open>Records of the single-facility tracker (src/unnamed/part_000)\<close>

text \<open>
  A row of the \<^verbatim>\<open>vaccinations\<close> table. \<open>vacc_id\<close> is the auto-incremented primary key
  (\<^verbatim>\<open>++id\<close>); the dates are the strings the date inputs hand over, empty when unset.
\<close>

record vaccination =
  vacc_id :: nat
  childId :: nat
  vaccine :: string
  dateGiven :: string
  batchNumber :: string
  placeGiven :: string
  remarks :: string
  nextVisit :: string
  status :: string

text \<open>
  A child as the global array \<^verbatim>\<open>children\<close> holds it: the row of the \<^verbatim>\<open>children\<close> table
  with the child's vaccination rows attached. \<open>createdAt\<close> is a time in milliseconds
  since the epoch, \<open>None\<close> where the property is missing.
\<close>

record child =
  child_id :: nat
  regNo :: string
  name :: string
  dob :: string
  sex :: string
  address :: string
  contact :: string
  isDefaulter :: bool
  createdAt :: "int option"
  vaccinations :: "vaccination list"

text \<open>
  One row of the immunization dialog as \<^verbatim>\<open>saveImmunization\<close> reads it: the label in the
  first cell and the four input fields.
\<close>

record immunizationRow =
  row_vaccine :: string
  row_dateGiven :: string
  row_batchNumber :: string
  row_placeGiven :: string
  row_remarks :: string

text \<open>
  The two objects \<^verbatim>\<open>saveImmunization\<close> hands to \<^verbatim>\<open>db.vaccinations.add\<close>: one for a dialog
  row, one for a vaccine booked for the next visit. The objects carry no key; the store
  assigns \<open>vacc_id\<close> when it adds them, and \<open>0\<close> stands in until then.
\<close>

definition rowRecord :: "nat \<Rightarrow> immunizationRow \<Rightarrow> vaccination" where
  "rowRecord cid row =
     \<lparr>vacc_id = 0, childId = cid, vaccine = row_vaccine row, dateGiven = row_dateGiven row,
      batchNumber = row_batchNumber row, placeGiven = row_placeGiven row,
      remarks = row_remarks row, nextVisit = [],
      status = (if row_dateGiven row \<noteq> [] then ''completed'' else ''pending'')\<rparr>"

definition bookingRecord :: "nat \<Rightarrow> string \<Rightarrow> string \<Rightarrow> vaccination" where
  "bookingRecord cid nextVisitDate vaccineLabel =
     \<lparr>vacc_id = 0, childId = cid, vaccine = vaccineLabel, dateGiven = [],
      batchNumber = [], placeGiven = [], remarks = [], nextVisit = nextVisitDate,
      status = ''scheduled''\<rparr>"

section \<open>The vaccination schedule\<close>

definition vaccinationSchedule :: "string list" where
  "vaccinationSchedule =
    [''BCG at Birth'',
     ''OPV0 at Birth'',
     ''Hepatitis B at Birth'',
     ''OPV1 at 6 weeks'',
     ''Penta1 at 6 weeks'',
     ''PCV1 at 6 weeks'',
     ''Rotavirus1 at 6 weeks'',
     ''OPV2 at 10 weeks'',
     ''Penta2 at 10 weeks'',
     ''PCV2 at 10 weeks'',
     ''Rotavirus2 at 10 weeks'',
     ''OPV3 at 14 weeks'',
     ''Penta3 at 14 weeks'',
     ''PCV3 at 14 weeks'',
     ''Rotavirus3 at 14 weeks'',
     ''IPV1 at 14 weeks'',
     ''Malaria1 at 6 months'',
     ''Malaria2 at 7 months'',
     ''IPV2 at 7 months'',
     ''Malaria3 at 9 months'',
     ''Measles Rubella1 at 9 months'',
     ''Malaria4 at 18 months'',
     ''Measles Rubella2 at 18 months'',
     ''Men A at 18 months'',
     ''Vitamin A at 6 months'',
     ''Vitamin A at 12 months'',
     ''Vitamin A at 18 months'',
     ''Vitamin A at 24 months'',
     ''Vitamin A at 30 months'',
     ''Vitamin A at 36 months'',
     ''Vitamin A at 42 months'',
     ''Vitamin A at 48 months'',
     ''Vitamin A at 54 months'',
     ''Vitamin A at 60 months'']"

text \<open>
  The schedule has two readers. \<^verbatim>\<open>openImmunizationModal\<close> builds one dialog row per
  schedule entry, in schedule order, filled from the child's first row for that vaccine
  and from the unsaved date, if there is one. \<^verbatim>\<open>openBookingModal\<close> offers the entries
  that are not given, not booked and have no unsaved date. \<open>unsavedDates\<close> is the
  child's part of \<^verbatim>\<open>unsavedVaccinations\<close>, from vaccine label to date.
\<close>

definition openImmunizationModal :: "child \<Rightarrow> (string \<rightharpoonup> string) \<Rightarrow> immunizationRow list" where
  "openImmunizationModal c unsavedDates =
     map (\<lambda>label.
           (let existingVaccine = find (\<lambda>v. vaccine v = label) (vaccinations c);
                field = (\<lambda>f. case existingVaccine of None \<Rightarrow> [] | Some v \<Rightarrow> f v);
                unsavedDate = (case unsavedDates label of None \<Rightarrow> [] | Some d \<Rightarrow> d)
            in \<lparr>row_vaccine = label,
                row_dateGiven = (if unsavedDate \<noteq> [] then unsavedDate else field dateGiven),
                row_batchNumber = field batchNumber,
                row_placeGiven = field placeGiven,
                row_remarks = field remarks\<rparr>))
       vaccinationSchedule"

definition availableVaccines :: "child \<Rightarrow> (string \<rightharpoonup> string) \<Rightarrow> string list" where
  "availableVaccines c unsavedDates =
     (let givenVaccines = map vaccine (filter (\<lambda>v. dateGiven v \<noteq> []) (vaccinations c));
          hasUnsavedDate = (\<lambda>v. case unsavedDates v of None \<Rightarrow> False | Some d \<Rightarrow> d \<noteq> []);
          bookedVaccines =
            map vaccine (filter (\<lambda>v. nextVisit v \<noteq> [] \<and> \<not> dateGiven v \<noteq> []) (vaccinations c))
      in filter (\<lambda>v. \<not> List.member givenVaccines v \<and> \<not> List.member bookedVaccines v \<and> \<not> hasUnsavedDate v)
           vaccinationSchedule)"

section \<open>Dates\<close>

text \<open>
  A \<^verbatim>\<open>Date\<close> is its time value: milliseconds since the epoch, or \<open>None\<close> for an
  invalid date (the time value \<^verbatim>\<open>NaN\<close>). The constructor \<^verbatim>\<open>new Date(string)\<close> belongs to
  the runtime; the functions below take it as the parameter \<open>parse\<close>, so that what is
  proved of them holds whatever the runtime makes of a date string. \<open>today\<close> is the time
  value of \<^verbatim>\<open>new Date()\<close>, the present instant.

  Comparing with \<^verbatim>\<open>NaN\<close> is false, and arithmetic on \<^verbatim>\<open>NaN\<close> gives \<^verbatim>\<open>NaN\<close>. The
  differences of time values are whole numbers of milliseconds, so \<^verbatim>\<open>Math.floor\<close> of a
  quotient by the length of a day is integer division and \<^verbatim>\<open>Math.ceil\<close> is its mirror
  image. The runtime divides in double precision; the rounded quotient has the same
  floor and ceiling as the exact one as long as the two instants are less than \<open>2^52\<close>
  milliseconds (some 140 000 years) apart.
\<close>

type_synonym date = "int option"

definition msPerDay :: int where
  "msPerDay = 1000 * 60 * 60 * 24"

definition dateLess :: "date \<Rightarrow> date \<Rightarrow> bool" where
  "dateLess a b = (case a of None \<Rightarrow> False | Some x \<Rightarrow> (case b of None \<Rightarrow> False | Some y \<Rightarrow> x < y))"

definition numGreater :: "int option \<Rightarrow> int \<Rightarrow> bool" where
  "numGreater a k = (case a of None \<Rightarrow> False | Some x \<Rightarrow> x > k)"

definition numLessEq :: "int option \<Rightarrow> int \<Rightarrow> bool" where
  "numLessEq a k = (case a of None \<Rightarrow> False | Some x \<Rightarrow> x \<le> k)"

text \<open>\<^verbatim>\<open>Math.floor((today - nextVisitDate) / (1000 * 60 * 60 * 24))\<close>\<close>

definition daysOverdueOf :: "date \<Rightarrow> int \<Rightarrow> int option" where
  "daysOverdueOf nextVisitDate today = map_option (\<lambda>t. (today - t) div msPerDay) nextVisitDate"

text \<open>\<^verbatim>\<open>Math.ceil((nextVisitDate - today) / (1000 * 60 * 60 * 24))\<close>\<close>

definition daysUntilOf :: "date \<Rightarrow> int \<Rightarrow> int option" where
  "daysUntilOf nextVisitDate today = map_option (\<lambda>t. - ((today - t) div msPerDay)) nextVisitDate"

text \<open>
  For closed examples, the runtime's reading of the value of a date input: the text
  \<^verbatim>\<open>YYYY-MM-DD\<close> of a calendar date is midnight UTC of that day. \<open>daysFromCivil\<close> counts
  the days from 1970-01-01 in the proleptic Gregorian calendar. Any other text is left
  invalid here, which the examples do not rely on.
\<close>

definition isDigit :: "char \<Rightarrow> bool" where
  "isDigit c = (let n = (of_char c :: nat) in 48 \<le> n \<and> n \<le> 57)"

definition digitVal :: "char \<Rightarrow> nat" where
  "digitVal c = (of_char c :: nat) - 48"

definition readNat :: "string \<Rightarrow> nat" where
  "readNat s = foldl (\<lambda>a c. 10 * a + digitVal c) 0 s"

definition daysFromCivil :: "int \<Rightarrow> int \<Rightarrow> int \<Rightarrow> int" where
  "daysFromCivil y m d =
     (let y' = (if m \<le> 2 then y - 1 else y);
          era = y' div 400;
          yoe = y' - era * 400;
          doy = (153 * (if m > 2 then m - 3 else m + 9) + 2) div 5 + d - 1;
          doe = yoe * 365 + yoe div 4 - yoe div 100 + doy
      in era * 146097 + doe - 719468)"

definition daysInMonth :: "int \<Rightarrow> int \<Rightarrow> int" where
  "daysInMonth y m =
     (if m = 2 then (if y mod 4 = 0 \<and> (y mod 100 \<noteq> 0 \<or> y mod 400 = 0) then 29 else 28)
      else if m = 4 \<or> m = 6 \<or> m = 9 \<or> m = 11 then 30 else 31)"

definition parseDateInput :: "string \<Rightarrow> date" where
  "parseDateInput s =
     (if length s = 10 \<and> s ! 4 = CHR ''-'' \<and> s ! 7 = CHR ''-''
         \<and> list_all isDigit (take 4 s) \<and> list_all isDigit (take 2 (drop 5 s))
         \<and> list_all isDigit (drop 8 s)
      then (let y = int (readNat (take 4 s));
                m = int (readNat (take 2 (drop 5 s)));
                d = int (readNat (drop 8 s))
            in if 1 \<le> m \<and> m \<le> 12 \<and> 1 \<le> d \<and> d \<le> daysInMonth y m
               then Some (daysFromCivil y m d * msPerDay) else None)
      else None)"

section \<open>The status engine\<close>

subsection \<open>The counters of \<^verbatim>\<open>updateStats\<close>\<close>

text \<open>
  The inner \<^verbatim>\<open>forEach\<close> of \<^verbatim>\<open>updateStats\<close> runs over one child's doses and raises the
  three flags \<^verbatim>\<open>isDefaulter\<close>, \<^verbatim>\<open>isDueSoon\<close> and \<^verbatim>\<open>isUpcoming\<close>; \<open>statsStep\<close> is its
  body, on the flags in that order (written \<open>defaulter\<close>, \<open>dueSoon\<close>, \<open>upcoming\<close>,
  since \<open>isDefaulter\<close> names the child's field).
\<close>

definition statsStep :: "(string \<Rightarrow> date) \<Rightarrow> int \<Rightarrow> bool \<times> bool \<times> bool \<Rightarrow> vaccination \<Rightarrow> bool \<times> bool \<times> bool" where
  "statsStep parse today flags vaccination =
     (case flags of (defaulter, dueSoon, upcoming) \<Rightarrow>
        if nextVisit vaccination \<noteq> [] \<and> \<not> dateGiven vaccination \<noteq> [] then
          (let nextVisitDate = parse (nextVisit vaccination) in
           if dateLess nextVisitDate (Some today) then (True, dueSoon, upcoming)
           else (let daysUntil = daysUntilOf nextVisitDate today in
                 if numLessEq daysUntil 7 then (defaulter, True, upcoming)
                 else if numLessEq daysUntil 30 then (defaulter, dueSoon, True)
                 else (defaulter, dueSoon, upcoming)))
        else (defaulter, dueSoon, upcoming))"

record stats =
  totalChildren :: nat
  defaulterCount :: nat
  dueSoonCount :: nat
  upcomingCount :: nat

text \<open>The body of the outer \<^verbatim>\<open>forEach\<close>: one child, and the three counters.\<close>

definition countChild :: "(string \<Rightarrow> date) \<Rightarrow> int \<Rightarrow> stats \<Rightarrow> child \<Rightarrow> stats" where
  "countChild parse today st c =
     (case foldl (statsStep parse today) (False, False, False) (vaccinations c) of
        (defaulter, dueSoon, upcoming) \<Rightarrow>
          st\<lparr>defaulterCount := (if defaulter then defaulterCount st + 1 else defaulterCount st),
             dueSoonCount := (if dueSoon then dueSoonCount st + 1 else dueSoonCount st),
             upcomingCount := (if upcoming then upcomingCount st + 1 else upcomingCount st)\<rparr>)"

definition updateStats :: "(string \<Rightarrow> date) \<Rightarrow> int \<Rightarrow> child list \<Rightarrow> stats" where
  "updateStats parse today children =
     foldl (countChild parse today)
       \<lparr>totalChildren = length children, defaulterCount = 0, dueSoonCount = 0, upcomingCount = 0\<rparr>
       children"

subsection \<open>The three summary tables\<close>

text \<open>
  The filters of \<^verbatim>\<open>updateDefaultersTable\<close>, \<^verbatim>\<open>updateDueSoonTable\<close> and
  \<^verbatim>\<open>updateUpcomingTable\<close>, each on one dose.
\<close>

definition missedVaccine :: "(string \<Rightarrow> date) \<Rightarrow> int \<Rightarrow> vaccination \<Rightarrow> bool" where
  "missedVaccine parse today v =
     (if nextVisit v \<noteq> [] \<and> \<not> dateGiven v \<noteq> [] then
        (let nextVisitDate = parse (nextVisit v) in dateLess nextVisitDate (Some today))
      else False)"

definition dueSoonVaccine :: "(string \<Rightarrow> date) \<Rightarrow> int \<Rightarrow> vaccination \<Rightarrow> bool" where
  "dueSoonVaccine parse today v =
     (if nextVisit v \<noteq> [] \<and> \<not> dateGiven v \<noteq> [] then
        (let nextVisitDate = parse (nextVisit v);
             daysUntil = daysUntilOf nextVisitDate today
         in numGreater daysUntil 0 \<and> numLessEq daysUntil 7)
      else False)"

definition upcomingVaccine :: "(string \<Rightarrow> date) \<Rightarrow> int \<Rightarrow> vaccination \<Rightarrow> bool" where
  "upcomingVaccine parse today v =
     (if nextVisit v \<noteq> [] \<and> \<not> dateGiven v \<noteq> [] then
        (let nextVisitDate = parse (nextVisit v);
             daysUntil = daysUntilOf nextVisitDate today
         in numGreater daysUntil 7 \<and> numLessEq daysUntil 30)
      else False)"

text \<open>
  The featured dose: \<^verbatim>\<open>reduce\<close> without an initial value starts from the first
  qualifying dose and keeps \<^verbatim>\<open>prev\<close> only where its date is strictly earlier than the
  date of \<^verbatim>\<open>current\<close>.
\<close>

fun reduceEarliest :: "(string \<Rightarrow> date) \<Rightarrow> vaccination \<Rightarrow> vaccination list \<Rightarrow> vaccination" where
  "reduceEarliest parse prev [] = prev"
| "reduceEarliest parse prev (current # rest) =
     (let prevDate = parse (nextVisit prev);
          currentDate = parse (nextVisit current)
      in reduceEarliest parse (if dateLess prevDate currentDate then prev else current) rest)"

text \<open>
  The property of the featured dose of a table row: it stands in the list of qualifying
  doses, no dose before it has an earlier date, and every dose after it has a strictly
  later date.
\<close>

definition lastEarliest :: "(string \<Rightarrow> date) \<Rightarrow> vaccination list \<Rightarrow> vaccination \<Rightarrow> bool" where
  "lastEarliest parse qualifying featured =
     (\<exists>ys zs. qualifying = ys @ featured # zs
        \<and> (\<forall>y\<in>set ys. \<not> dateLess (parse (nextVisit y)) (parse (nextVisit featured)))
        \<and> (\<forall>z\<in>set zs. dateLess (parse (nextVisit featured)) (parse (nextVisit z))))"

record tableRow =
  row_child :: child
  row_vaccination :: vaccination
  row_days :: "int option"

text \<open>
  The three table functions are the same loop over \<^verbatim>\<open>children\<close> with a different
  filter and a different day count: a child whose registration number is already in
  \<^verbatim>\<open>countedChildren\<close> is skipped, a child with no qualifying dose adds nothing, and any
  other child adds one row with its featured dose. \<open>tableLoop\<close> is that loop.
\<close>

fun tableLoop ::
  "(vaccination \<Rightarrow> bool) \<Rightarrow> (vaccination \<Rightarrow> int option) \<Rightarrow> (string \<Rightarrow> date) \<Rightarrow> string set \<Rightarrow> child list \<Rightarrow> tableRow list" where
  "tableLoop qualifies days parse countedChildren [] = []"
| "tableLoop qualifies days parse countedChildren (c # cs) =
     (if regNo c \<in> countedChildren then tableLoop qualifies days parse countedChildren cs
      else (case filter qualifies (vaccinations c) of
              [] \<Rightarrow> tableLoop qualifies days parse countedChildren cs
            | v # vs \<Rightarrow>
                (let featured = reduceEarliest parse v vs
                 in \<lparr>row_child = c, row_vaccination = featured, row_days = days featured\<rparr>
                    # tableLoop qualifies days parse (insert (regNo c) countedChildren) cs)))"

definition updateDefaultersTable :: "(string \<Rightarrow> date) \<Rightarrow> int \<Rightarrow> child list \<Rightarrow> tableRow list" where
  "updateDefaultersTable parse today children =
     tableLoop (missedVaccine parse today) (\<lambda>mostOverdue. daysOverdueOf (parse (nextVisit mostOverdue)) today)
       parse {} children"

definition updateDueSoonTable :: "(string \<Rightarrow> date) \<Rightarrow> int \<Rightarrow> child list \<Rightarrow> tableRow list" where
  "updateDueSoonTable parse today children =
     tableLoop (dueSoonVaccine parse today) (\<lambda>closestDue. daysUntilOf (parse (nextVisit closestDue)) today)
       parse {} children"

definition updateUpcomingTable :: "(string \<Rightarrow> date) \<Rightarrow> int \<Rightarrow> child list \<Rightarrow> tableRow list" where
  "updateUpcomingTable parse today children =
     tableLoop (upcomingVaccine parse today) (\<lambda>closestDue. daysUntilOf (parse (nextVisit closestDue)) today)
       parse {} children"

text \<open>
  What a table shows of a list of children: the children in order, leaving out every
  child whose registration number is in \<open>seen\<close> or belongs to a child kept before it.
\<close>

fun firstPerRegNo :: "string set \<Rightarrow> child list \<Rightarrow> child list" where
  "firstPerRegNo seen [] = []"
| "firstPerRegNo seen (c # cs) =
     (if regNo c \<in> seen then firstPerRegNo seen cs
      else c # firstPerRegNo (insert (regNo c) seen) cs)"

subsection \<open>The cached defaulter flag\<close>

definition updateDefaulterStatus :: "(string \<Rightarrow> date) \<Rightarrow> int \<Rightarrow> child \<Rightarrow> child" where
  "updateDefaulterStatus parse today c =
     c\<lparr>isDefaulter :=
         list_ex (\<lambda>vaccination.
             if \<not> nextVisit vaccination \<noteq> [] then False
             else (let nextVisitDate = parse (nextVisit vaccination)
                   in dateLess nextVisitDate (Some today)))
           (vaccinations c)\<rparr>"

section \<open>The database\<close>

text \<open>
  The Dexie database of the single-facility tracker, as far as registration, save and
  restore touch it: the three tables and the key generators of the two tables with an
  auto-incremented key. A row of \<^verbatim>\<open>children\<close> is a \<^typ>\<open>child\<close> whose \<open>vaccinations\<close>
  the store does not hold.
\<close>

record facilityRow =
  fr_id :: nat
  fr_name :: string
  updatedAt :: int

record database =
  children_tbl :: "child list"
  children_nextId :: nat
  vaccinations_tbl :: "vaccination list"
  vaccinations_nextId :: nat
  facility_tbl :: "facilityRow list"

datatype error = FormatError | StorageError | ConstraintError | SyntaxError

text \<open>
  A storage request can be rejected (quota, a closed connection, a crash of the page).
  The requests of one call are numbered in the order the code issues them, and the
  environment is the predicate \<open>fails\<close> on those numbers. Outside \<^verbatim>\<open>db.transaction\<close> every
  request is a transaction of its own: it commits alone, and a rejected one changes
  nothing. An added row gets the next key of the table's key generator and stands last.
\<close>

definition vaccinations_deleteWhereChildId :: "nat \<Rightarrow> database \<Rightarrow> database" where
  "vaccinations_deleteWhereChildId cid db =
     db\<lparr>vaccinations_tbl := filter (\<lambda>v. childId v \<noteq> cid) (vaccinations_tbl db)\<rparr>"

definition vaccinations_add :: "vaccination \<Rightarrow> database \<Rightarrow> database" where
  "vaccinations_add v db =
     db\<lparr>vaccinations_tbl := vaccinations_tbl db @ [v\<lparr>vacc_id := vaccinations_nextId db\<rparr>],
        vaccinations_nextId := Suc (vaccinations_nextId db)\<rparr>"

definition vaccinations_whereChildId :: "nat \<Rightarrow> database \<Rightarrow> vaccination list" where
  "vaccinations_whereChildId cid db = filter (\<lambda>v. childId v = cid) (vaccinations_tbl db)"

text \<open>
  The body of the loop of \<^verbatim>\<open>initApp\<close> that attaches to a child of the \<^verbatim>\<open>children\<close> array
  its rows of the \<^verbatim>\<open>vaccinations\<close> table.
\<close>

definition attachVaccinations :: "database \<Rightarrow> child \<Rightarrow> child" where
  "attachVaccinations db c = c\<lparr>vaccinations := vaccinations_whereChildId (child_id c) db\<rparr>"

definition children_add :: "child \<Rightarrow> database \<Rightarrow> nat \<times> database" where
  "children_add c db =
     (children_nextId db,
      db\<lparr>children_tbl := children_tbl db @ [c\<lparr>child_id := children_nextId db\<rparr>],
         children_nextId := Suc (children_nextId db)\<rparr>)"

definition children_updateIsDefaulter :: "nat \<Rightarrow> bool \<Rightarrow> database \<Rightarrow> database" where
  "children_updateIsDefaulter cid b db =
     db\<lparr>children_tbl := map (\<lambda>c. if child_id c = cid then c\<lparr>isDefaulter := b\<rparr> else c) (children_tbl db)\<rparr>"

section \<open>Saving a child's immunization data\<close>

text \<open>The check of the mandatory fields, on one row.\<close>

definition rowInvalid :: "immunizationRow \<Rightarrow> bool" where
  "rowInvalid row =
     (row_dateGiven row \<noteq> []
      \<and> (\<not> row_batchNumber row \<noteq> [] \<or> \<not> row_placeGiven row \<noteq> [] \<or> \<not> row_remarks row \<noteq> []))"

text \<open>
  The objects pushed to \<^verbatim>\<open>vaccinationPromises\<close>, in order: the dialog rows that have any
  field filled, then one object per vaccine booked for the next visit. A missing
  \<^verbatim>\<open>nextVisitDate\<close> (\<^verbatim>\<open>null\<close>) is the empty string here; both are falsy.
\<close>

definition saveRecords :: "nat \<Rightarrow> immunizationRow list \<Rightarrow> bool \<Rightarrow> string \<Rightarrow> string list \<Rightarrow> vaccination list" where
  "saveRecords cid rows bookNextVisit nextVisitDate nextVisitVaccines =
     map (rowRecord cid)
       (filter (\<lambda>row. row_dateGiven row \<noteq> [] \<or> row_batchNumber row \<noteq> []
                     \<or> row_placeGiven row \<noteq> [] \<or> row_remarks row \<noteq> []) rows)
     @ (if bookNextVisit \<and> nextVisitDate \<noteq> [] \<and> length nextVisitVaccines > 0
        then map (bookingRecord cid nextVisitDate) nextVisitVaccines else [])"

text \<open>
  The adds are issued one after the other without awaiting, request \<open>k\<close>, \<open>k + 1\<close>, ...;
  each commits or is rejected on its own. \<open>addAll\<close> gives the database once all have
  settled and whether any was rejected, which is when \<^verbatim>\<open>Promise.all\<close> rejects.
\<close>

fun addAll :: "(nat \<Rightarrow> bool) \<Rightarrow> nat \<Rightarrow> vaccination list \<Rightarrow> database \<Rightarrow> bool \<times> database" where
  "addAll fails k [] db = (False, db)"
| "addAll fails k (v # vs) db =
     (if fails k then (case addAll fails (Suc k) vs db of (rejected, db') \<Rightarrow> (True, db'))
      else addAll fails (Suc k) vs (vaccinations_add v db))"

datatype saveOutcome = Saved | NotValid | SaveFailed

text \<open>
  \<^verbatim>\<open>saveImmunization\<close> for the selected child: the outcome, the child object of the
  \<^verbatim>\<open>children\<close> array and the database afterwards. Request \<open>0\<close> is the delete, the adds
  follow, then the read of the child's rows and the update of the child's row. The
  unsaved-date buffer and the screen updates are left out.
\<close>

definition saveImmunization ::
  "(string \<Rightarrow> date) \<Rightarrow> int \<Rightarrow> (nat \<Rightarrow> bool) \<Rightarrow> child \<Rightarrow> immunizationRow list \<Rightarrow> bool \<Rightarrow> string \<Rightarrow> string list
     \<Rightarrow> database \<Rightarrow> saveOutcome \<times> child \<times> database" where
  "saveImmunization parse today fails c rows bookNextVisit nextVisitDate nextVisitVaccines db =
     (if list_ex rowInvalid rows then (NotValid, c, db)
      else if fails 0 then (SaveFailed, c, db)
      else
        (let db1 = vaccinations_deleteWhereChildId (child_id c) db;
             records = saveRecords (child_id c) rows bookNextVisit nextVisitDate nextVisitVaccines;
             n = length records
         in case addAll fails 1 records db1 of (rejected, db2) \<Rightarrow>
              if rejected then (SaveFailed, c, db2)
              else if fails (n + 1) then (SaveFailed, c, db2)
              else
                (let c1 = c\<lparr>vaccinations := vaccinations_whereChildId (child_id c) db2\<rparr>;
                     c2 = updateDefaulterStatus parse today c1
                 in if fails (n + 2) then (SaveFailed, c2, db2)
                    else (Saved, c2, children_updateIsDefaulter (child_id c) (isDefaulter c2) db2))))"

section \<open>Restoring a backup\<close>

text \<open>
  The file chosen for restore, after \<^verbatim>\<open>JSON.parse\<close>: either not JSON at all, or a document
  whose top-level keys are present or not. A key that is \<^verbatim>\<open>null\<close> reads as missing.
\<close>

record backupDocument =
  doc_children :: "child list option"
  doc_vaccinations :: "vaccination list option"
  doc_facility :: "facilityRow list option"
  backupDate :: "string option"

datatype fileText = NotJson | Json backupDocument

text \<open>
  Inside \<^verbatim>\<open>db.transaction\<close> the requests share one transaction. \<open>request\<close> runs request
  number \<open>k\<close> on the working state unless an earlier one failed; \<open>transaction\<close> commits
  the working state if the body completes and keeps the state from before if it throws.
  \<^verbatim>\<open>bulkAdd\<close> is rejected when two rows would share a primary key. A table hands its
  rows out in the order of their primary keys, whatever the order they were added in, so
  \<^verbatim>\<open>bulkAdd\<close> leaves the table sorted by key.
\<close>

definition request :: "(nat \<Rightarrow> bool) \<Rightarrow> nat \<Rightarrow> (database \<Rightarrow> error + database) \<Rightarrow> error + database \<Rightarrow> error + database" where
  "request fails k op st =
     (case st of Inl e \<Rightarrow> Inl e
      | Inr db \<Rightarrow> if fails k then Inl StorageError else op db)"

definition transaction :: "(database \<Rightarrow> error + database) \<Rightarrow> database \<Rightarrow> (error + unit) \<times> database" where
  "transaction body db = (case body db of Inl e \<Rightarrow> (Inl e, db) | Inr db' \<Rightarrow> (Inr (), db'))"

definition children_clear :: "database \<Rightarrow> error + database" where
  "children_clear db = Inr (db\<lparr>children_tbl := []\<rparr>)"

definition vaccinations_clear :: "database \<Rightarrow> error + database" where
  "vaccinations_clear db = Inr (db\<lparr>vaccinations_tbl := []\<rparr>)"

definition facility_clear :: "database \<Rightarrow> error + database" where
  "facility_clear db = Inr (db\<lparr>facility_tbl := []\<rparr>)"

definition children_bulkAdd :: "child list \<Rightarrow> database \<Rightarrow> error + database" where
  "children_bulkAdd cs db =
     (if distinct (map child_id (children_tbl db @ cs))
      then Inr (db\<lparr>children_tbl := sort_key child_id (children_tbl db @ cs),
                  children_nextId := fold (\<lambda>c n. max n (Suc (child_id c))) cs (children_nextId db)\<rparr>)
      else Inl ConstraintError)"

definition vaccinations_bulkAdd :: "vaccination list \<Rightarrow> database \<Rightarrow> error + database" where
  "vaccinations_bulkAdd vs db =
     (if distinct (map vacc_id (vaccinations_tbl db @ vs))
      then Inr (db\<lparr>vaccinations_tbl := sort_key vacc_id (vaccinations_tbl db @ vs),
                  vaccinations_nextId := fold (\<lambda>v n. max n (Suc (vacc_id v))) vs (vaccinations_nextId db)\<rparr>)
      else Inl ConstraintError)"

definition facility_bulkAdd :: "facilityRow list \<Rightarrow> database \<Rightarrow> error + database" where
  "facility_bulkAdd fs db =
     (if distinct (map fr_id (facility_tbl db @ fs))
      then Inr (db\<lparr>facility_tbl := sort_key fr_id (facility_tbl db @ fs)\<rparr>)
      else Inl ConstraintError)"

text \<open>The body of the transaction of the restore handler, for the parsed document.\<close>

definition restoreBody :: "(nat \<Rightarrow> bool) \<Rightarrow> backupDocument \<Rightarrow> database \<Rightarrow> error + database" where
  "restoreBody fails data db =
     (let s1 = request fails 0 children_clear (Inr db);
          s2 = request fails 1 vaccinations_clear s1;
          s3 = request fails 2 facility_clear s2;
          s4 = (case doc_children data of None \<Rightarrow> s3
                | Some cs \<Rightarrow> request fails 3 (children_bulkAdd cs) s3);
          s5 = (case doc_vaccinations data of None \<Rightarrow> s4
                | Some vs \<Rightarrow> request fails 4 (vaccinations_bulkAdd vs) s4)
      in (case doc_facility data of None \<Rightarrow> s5
          | Some fs \<Rightarrow> request fails 5 (facility_bulkAdd fs) s5))"

datatype restoreOutcome = Restored | Cancelled | RestoreError error

text \<open>
  The handler of the restore file input: \<open>confirmed\<close> is the user's answer to the
  confirmation dialog. Every thrown error ends in the same notification; the outcome
  records which one it was.
\<close>

definition restore :: "(nat \<Rightarrow> bool) \<Rightarrow> bool \<Rightarrow> fileText \<Rightarrow> database \<Rightarrow> restoreOutcome \<times> database" where
  "restore fails confirmed file db =
     (case file of
        NotJson \<Rightarrow> (RestoreError SyntaxError, db)
      | Json data \<Rightarrow>
          if doc_children data = None \<or> doc_vaccinations data = None
          then (RestoreError FormatError, db)
          else if \<not> confirmed then (Cancelled, db)
          else (case transaction (restoreBody fails data) db of
                  (Inl e, db') \<Rightarrow> (RestoreError e, db')
                | (Inr u, db') \<Rightarrow> (Restored, db')))"

section \<open>Registration numbers\<close>

text \<open>
  \<^verbatim>\<open>String(n)\<close> for a whole number is its decimal numeral, with a minus sign when it is
  negative; \<^verbatim>\<open>padStart(3, '0')\<close> fills a shorter string with zeros on the left and
  leaves a longer one alone.
\<close>

definition digitChar :: "nat \<Rightarrow> char" where
  "digitChar d = char_of (48 + d)"

fun digitsOf :: "nat \<Rightarrow> string" where
  "digitsOf n = (if n < 10 then [digitChar n] else digitsOf (n div 10) @ [digitChar (n mod 10)])"

declare digitsOf.simps [simp del]

definition StringOfInt :: "int \<Rightarrow> string" where
  "StringOfInt i = (if i < 0 then CHR ''-'' # digitsOf (nat (- i)) else digitsOf (nat i))"

definition padStart :: "nat \<Rightarrow> char \<Rightarrow> string \<Rightarrow> string" where
  "padStart n c s = replicate (n - length s) c @ s"

text \<open>The template \<^verbatim>\<open>`${String(count).padStart(3, '0')}/${year}`\<close>.\<close>

definition formatRegNo :: "nat \<Rightarrow> int \<Rightarrow> string" where
  "formatRegNo count year = padStart 3 (CHR ''0'') (digitsOf count) @ ''/'' @ StringOfInt year"

text \<open>
  The \<^verbatim>\<open>while\<close> loop of \<^verbatim>\<open>generateRegNo\<close> stops because different counts give different
  registration numbers and the children are finitely many: the count can be read back
  from the text in front of the slash.
\<close>

lemma digitVal_digitChar: "d < 10 \<Longrightarrow> digitVal (digitChar d) = d"
  by (simp add: digitVal_def digitChar_def)

lemma readNat_snoc: "readNat (s @ [c]) = 10 * readNat s + digitVal c"
  by (simp add: readNat_def)

lemma readNat_digitsOf: "readNat (digitsOf n) = n"
proof (induction n rule: digitsOf.induct)
  case (1 n)
  show ?case
  proof (cases "n < 10")
    case True
    then show ?thesis by (simp add: digitsOf.simps [of n] readNat_def digitVal_digitChar)
  next
    case False
    then have "readNat (digitsOf n) = 10 * readNat (digitsOf (n div 10)) + digitVal (digitChar (n mod 10))"
      by (simp add: digitsOf.simps [of n] readNat_snoc)
    also have "\<dots> = 10 * (n div 10) + n mod 10"
      using 1 False by (simp add: digitVal_digitChar)
    finally show ?thesis by simp
  qed
qed

lemma readNat_zeros: "readNat (replicate k (CHR ''0'') @ s) = readNat s"
proof -
  have "foldl (\<lambda>a c. 10 * a + digitVal c) 0 (replicate k (CHR ''0'')) = 0"
    by (induction k) (simp_all add: digitVal_def)
  then show ?thesis by (simp add: readNat_def)
qed

lemma digitChar_not_slash: "d < 10 \<Longrightarrow> digitChar d \<noteq> CHR ''/''"
proof
  assume d: "d < 10" and "digitChar d = CHR ''/''"
  then have "(of_char (digitChar d) :: nat) = of_char (CHR ''/'')" by simp
  then show False using d by (simp add: digitChar_def)
qed

lemma digitsOf_no_slash: "CHR ''/'' \<notin> set (digitsOf n)"
proof (induction n rule: digitsOf.induct)
  case (1 n)
  show ?case
  proof (cases "n < 10")
    case True
    then show ?thesis using digitChar_not_slash [of n] by (simp add: digitsOf.simps [of n])
  next
    case False
    then have "set (digitsOf n) = set (digitsOf (n div 10)) \<union> {digitChar (n mod 10)}"
      by (simp add: digitsOf.simps [of n])
    then show ?thesis using 1 False digitChar_not_slash [of "n mod 10"] by simp
  qed
qed

lemma count_of_formatRegNo:
  "readNat (takeWhile (\<lambda>c. c \<noteq> CHR ''/'') (formatRegNo count year)) = count"
proof -
  let ?pad = "padStart 3 (CHR ''0'') (digitsOf count)"
  have "CHR ''/'' \<notin> set ?pad"
    using digitsOf_no_slash [of count] by (auto simp: padStart_def)
  then have "takeWhile (\<lambda>c. c \<noteq> CHR ''/'') (formatRegNo count year) = ?pad"
    by (simp add: formatRegNo_def takeWhile_append)
  then show ?thesis by (simp add: padStart_def readNat_zeros readNat_digitsOf)
qed

lemma formatRegNo_inj:
  assumes "formatRegNo m year = formatRegNo n year"
  shows "m = n"
proof -
  have "readNat (takeWhile (\<lambda>c. c \<noteq> CHR ''/'') (formatRegNo m year))
      = readNat (takeWhile (\<lambda>c. c \<noteq> CHR ''/'') (formatRegNo n year))"
    by (simp only: assms)
  then show ?thesis by (simp only: count_of_formatRegNo)
qed

lemma finite_colliding_counts: "finite {k. formatRegNo k year \<in> set regNos}"
proof -
  have "inj (\<lambda>k. formatRegNo k year)"
    by (rule injI) (rule formatRegNo_inj)
  then have "finite ((\<lambda>k. formatRegNo k year) -` set regNos)"
    by (simp add: finite_vimageI)
  then show ?thesis by (simp add: vimage_def)
qed

function regNoLoop :: "string list \<Rightarrow> int \<Rightarrow> nat \<Rightarrow> string" where
  "regNoLoop regNos year count =
     (if formatRegNo count year \<in> set regNos then regNoLoop regNos year (Suc count)
      else formatRegNo count year)"
  by pat_completeness auto
termination
proof (relation "measure (\<lambda>(regNos, year, count). card {k. count \<le> k \<and> formatRegNo k year \<in> set regNos})")
  show "wf (measure (\<lambda>(regNos, year, count). card {k. count \<le> k \<and> formatRegNo k year \<in> set regNos}))"
    by simp
next
  fix regNos :: "string list" and year :: int and count :: nat
  assume hit: "formatRegNo count year \<in> set regNos"
  let ?A = "{k. count \<le> k \<and> formatRegNo k year \<in> set regNos}"
  let ?B = "{k. Suc count \<le> k \<and> formatRegNo k year \<in> set regNos}"
  have fin: "finite ?A"
    using finite_colliding_counts [of year regNos] by simp
  have "count \<in> ?A" and "count \<notin> ?B" and "?B \<subseteq> ?A"
    using hit by auto
  then have "?B \<subset> ?A"
    by blast
  then have "card ?B < card ?A"
    using fin by (rule psubset_card_mono [rotated])
  then show "((regNos, year, Suc count), (regNos, year, count))
      \<in> measure (\<lambda>(regNos, year, count). card {k. count \<le> k \<and> formatRegNo k year \<in> set regNos})"
    by simp
qed

declare regNoLoop.simps [simp del]

text \<open>
  \<^verbatim>\<open>getFullYear\<close> is the runtime's calendar year of an instant in the local time zone,
  the parameter \<open>getFullYear\<close>; \<open>now\<close> is the instant of \<^verbatim>\<open>new Date()\<close>. A child without
  \<^verbatim>\<open>createdAt\<close> counts for the current year.
\<close>

definition generateRegNo :: "(int \<Rightarrow> int) \<Rightarrow> int \<Rightarrow> child list \<Rightarrow> string" where
  "generateRegNo getFullYear now children =
     (let year = getFullYear now;
          count = length (filter (\<lambda>c.
                     (let childYear = getFullYear (case createdAt c of None \<Rightarrow> now | Some t \<Rightarrow> t)
                      in childYear = year)) children) + 1
      in regNoLoop (map regNo children) year count)"

text \<open>
  The submit handler of the registration form. The name is trimmed and compared without
  regard to case with the names of all children; a date of birth after the present
  instant is refused (an unreadable one is not); then the row is added to the
  \<^verbatim>\<open>children\<close> table, request \<open>0\<close>, and the new child is put in front of the
  \<^verbatim>\<open>children\<close> array. Both objects get their number from a call of \<^verbatim>\<open>generateRegNo\<close> on
  the array as it was. The result is the outcome, the array and the database afterwards.
\<close>

record registrationForm =
  form_childName :: string
  form_dob :: string
  form_sex :: string
  form_address :: string
  form_contact :: string

datatype registrationOutcome = Registered | AlreadyRegistered | DobInFuture | RegistrationFailed

definition registerChild ::
  "(string \<Rightarrow> date) \<Rightarrow> (int \<Rightarrow> int) \<Rightarrow> int \<Rightarrow> (nat \<Rightarrow> bool) \<Rightarrow> registrationForm \<Rightarrow> child list \<Rightarrow> database
     \<Rightarrow> registrationOutcome \<times> child list \<times> database" where
  "registerChild parse getFullYear now fails form children db =
     (let childName = trim (form_childName form);
          dob = form_dob form
      in if list_ex (\<lambda>c. toLowerCase (name c) = toLowerCase childName) children
         then (AlreadyRegistered, children, db)
         else if dateLess (Some now) (parse dob) then (DobInFuture, children, db)
         else if fails 0 then (RegistrationFailed, children, db)
         else
           (let newChild =
                  \<lparr>child_id = 0, regNo = generateRegNo getFullYear now children, name = childName,
                   dob = dob, sex = form_sex form, address = form_address form,
                   contact = form_contact form, isDefaulter = False, createdAt = Some now,
                   vaccinations = []\<rparr>
            in case children_add newChild db of
                 (key, db') \<Rightarrow> (Registered, newChild\<lparr>child_id := key\<rparr> # children, db')))"

text \<open>
  The pattern \<^verbatim>\<open>^\d{3}/\d{4}$\<close> of the specification, and the wider \<^verbatim>\<open>^\d{3,}/\d{4}$\<close>.
\<close>

definition matchesRegNoPattern :: "string \<Rightarrow> bool" where
  "matchesRegNoPattern s =
     (length s = 8 \<and> list_all isDigit (take 3 s) \<and> s ! 3 = CHR ''/'' \<and> list_all isDigit (drop 4 s))"

definition matchesWidePattern :: "string \<Rightarrow> bool" where
  "matchesWidePattern s =
     (let front = takeWhile (\<lambda>c. c \<noteq> CHR ''/'') s; back = dropWhile (\<lambda>c. c \<noteq> CHR ''/'') s
      in 3 \<le> length front \<and> list_all isDigit front
         \<and> length back = 5 \<and> list_all isDigit (drop 1 back))"

text \<open>
  For closed examples, \<^verbatim>\<open>getFullYear\<close> of a runtime whose local time zone is UTC: the
  calendar year of the day an instant falls on, in the proleptic Gregorian calendar.
\<close>

definition utcFullYear :: "int \<Rightarrow> int" where
  "utcFullYear t =
     (let z = t div msPerDay + 719468;
          era = z div 146097;
          doe = z - era * 146097;
          yoe = (doe - doe div 1460 + doe div 36524 - doe div 146096) div 365;
          doy = doe - (365 * yoe + yoe div 4 - yoe div 100);
          mp = (5 * doy + 2) div 153
      in yoe + era * 400 + (if mp < 10 then 0 else 1))"

text \<open>
  A register of \<open>n\<close> children, all created at the first instant of 2024 and numbered
  \<open>001/2024\<close>, \<open>002/2024\<close>, ... in the order of registration, the newest first as the
  \<^verbatim>\<open>children\<close> array has them.
\<close>

definition registerOf :: "nat \<Rightarrow> child list" where
  "registerOf n =
     map (\<lambda>i. \<lparr>child_id = i, regNo = formatRegNo i 2024, name = ''Child '' @ digitsOf i,
               dob = ''2023-11-20'', sex = ''Female'', address = ''Accra'', contact = [],
               isDefaulter = False, createdAt = Some 1704067200000, vaccinations = []\<rparr>)
       (rev [1..<Suc n])"

section \<open>Example data\<close>

text \<open>
  A child with given doses, and an instant to stand for the present: noon UTC on
  10 January 2024. The examples book visits around that day.
\<close>

definition exampleChild :: "vaccination list \<Rightarrow> child" where
  "exampleChild vs =
     \<lparr>child_id = 1, regNo = ''001/2024'', name = ''Ama Mensah'', dob = ''2023-11-20'',
      sex = ''Female'', address = ''Accra'', contact = [], isDefaulter = False,
      createdAt = Some 1704067200000, vaccinations = vs\<rparr>"

definition noon10Jan :: int where
  "noon10Jan = 1704888000000"

text \<open>
  A database that holds the example child and the given vaccination rows, and the dose
  the examples start from: BCG, given on 20 November 2023.
\<close>

definition exampleDb :: "vaccination list \<Rightarrow> database" where
  "exampleDb vs =
     \<lparr>children_tbl = [exampleChild []], children_nextId = 2, vaccinations_tbl = vs,
      vaccinations_nextId = 100, facility_tbl = []\<rparr>"

definition bcgGiven :: vaccination where
  "bcgGiven =
     \<lparr>vacc_id = 7, childId = 1, vaccine = ''BCG at Birth'', dateGiven = ''2023-11-20'',
      batchNumber = ''B12'', placeGiven = ''Clinic'', remarks = ''given'', nextVisit = [],
      status = ''completed''\<rparr>"

definition bcgRow :: immunizationRow where
  "bcgRow =
     \<lparr>row_vaccine = ''BCG at Birth'', row_dateGiven = ''2023-11-20'', row_batchNumber = ''B12'',
      row_placeGiven = ''Clinic'', row_remarks = ''given''\<rparr>"

definition opv0Row :: immunizationRow where
  "opv0Row =
     \<lparr>row_vaccine = ''OPV0 at Birth'', row_dateGiven = ''2023-11-21'', row_batchNumber = ''P03'',
      row_placeGiven = ''Clinic'', row_remarks = ''given''\<rparr>"

definition remarkOnlyRow :: immunizationRow where
  "remarkOnlyRow =
     \<lparr>row_vaccine = ''Hepatitis B at Birth'', row_dateGiven = [], row_batchNumber = [],
      row_placeGiven = [], row_remarks = ''out of stock''\<rparr>"

text \<open>
  A database with rows in all three tables: the example child, its BCG row and a
  facility name.
\<close>

definition stockedDb :: database where
  "stockedDb =
     \<lparr>children_tbl = [exampleChild []], children_nextId = 2, vaccinations_tbl = [bcgGiven],
      vaccinations_nextId = 100,
      facility_tbl = [\<lparr>fr_id = 1, fr_name = ''Old Town Clinic'', updatedAt = 1700000000000\<rparr>]\<rparr>"

text \<open>
  Two other children, each with one vaccination row, and a backup document that holds
  them with the rows out of key order; a document without the vaccinations; and a
  document with one child and two visits booked for different days.
\<close>

definition kofi :: child where
  "kofi =
     \<lparr>child_id = 5, regNo = ''005/2023'', name = ''Kofi Boateng'', dob = ''2023-03-02'',
      sex = ''Male'', address = ''Kumasi'', contact = [], isDefaulter = False,
      createdAt = Some 1688169600000, vaccinations = []\<rparr>"

definition esi :: child where
  "esi =
     \<lparr>child_id = 2, regNo = ''002/2023'', name = ''Esi Owusu'', dob = ''2023-01-15'',
      sex = ''Female'', address = ''Tamale'', contact = [], isDefaulter = False,
      createdAt = Some 1675209600000, vaccinations = []\<rparr>"

definition exampleBackup :: backupDocument where
  "exampleBackup =
     \<lparr>doc_children = Some [kofi, esi],
      doc_vaccinations = Some
        [bookingRecord 5 ''2024-01-13'' ''OPV1 at 6 weeks'' \<lparr>vacc_id := 9\<rparr>,
         bcgGiven \<lparr>vacc_id := 3, childId := 2\<rparr>],
      doc_facility = Some [\<lparr>fr_id = 1, fr_name = ''Demo Health Center'', updatedAt = 1704067200000\<rparr>],
      backupDate = Some ''2024-01-10T12:00:00.000Z''\<rparr>"

definition twoDateBackup :: backupDocument where
  "twoDateBackup =
     \<lparr>doc_children = Some [exampleChild []],
      doc_vaccinations = Some
        [bookingRecord 1 ''2024-01-05'' ''BCG at Birth'' \<lparr>vacc_id := 1\<rparr>,
         bookingRecord 1 ''2024-01-13'' ''OPV1 at 6 weeks'' \<lparr>vacc_id := 2\<rparr>],
      doc_facility = None,
      backupDate = Some ''2024-01-10T12:00:00.000Z''\<rparr>"

text \<open>
  Three children for the summary views, seen at noon on 10 January: the example child
  with visits booked for 5, 8 and 13 January; a second child that carries the same
  registration number, with a visit booked for 2 January; a third child with a visit
  booked for 25 January.
\<close>

definition exampleRegister :: "child list" where
  "exampleRegister =
     [exampleChild [bookingRecord 1 ''2024-01-05'' ''BCG at Birth'',
                    bookingRecord 1 ''2024-01-08'' ''OPV0 at Birth'',
                    bookingRecord 1 ''2024-01-13'' ''OPV1 at 6 weeks''],
      exampleChild [bookingRecord 2 ''2024-01-02'' ''BCG at Birth'']
        \<lparr>child_id := 2, name := ''Yaw Darko''\<rparr>,
      exampleChild [bookingRecord 3 ''2024-01-25'' ''BCG at Birth'']
        \<lparr>child_id := 3, regNo := ''002/2024'', name := ''Abena Osei''\<rparr>]"

definition backupWithoutVaccinations :: backupDocument where
  "backupWithoutVaccinations =
     \<lparr>doc_children = Some [exampleChild []], doc_vaccinations = None,
      doc_facility = None, backupDate = Some ''2024-01-10T12:00:00.000Z''\<rparr>"

text \<open>A registration form for a third child.\<close>

definition exampleForm :: registrationForm where
  "exampleForm =
     \<lparr>form_childName = '' Kofi Boateng '', form_dob = ''2023-12-24'', form_sex = ''Male'',
      form_address = ''Kumasi'', form_contact = []\<rparr>"

section \<open>Results about the schedule and the recovery step\<close>

lemma checkAnswers_iff:
  "checkAnswers inputs k qs acc =
     (acc \<and> (\<forall>i<length qs. toLowerCase (trim (inputs (k + i))) = toLowerCase (answer (qs ! i))))"
proof (induction qs arbitrary: k acc)
  case Nil
  show ?case by simp
next
  case (Cons q qs)
  have split: "(\<forall>i<Suc (length qs). P i) = (P 0 \<and> (\<forall>i<length qs. P (Suc i)))" for P
    by (metis (no_types) All_less_Suc2)
  show ?case
    by (simp add: Cons.IH Let_def split)
qed

text \<open>
  C10, as amended. For a facility with stored security questions, step 2 of the
  recovery advances to step 3 exactly when, for every stored question, the trimmed and
  lower-cased text of its input field equals the lower-cased stored answer. One wrong
  answer keeps the step where it was, whatever the other answers are.
\<close>

theorem verifySecurityAnswers_all_or_nothing:
  assumes "securityQuestions f = Some qs"
  shows "(verifySecurityAnswers f inputs 2 = 3) =
     (\<forall>i<length qs. toLowerCase (trim (inputs i)) = toLowerCase (answer (qs ! i)))"
  using assms by (simp add: verifySecurityAnswers_def checkAnswers_iff)

text \<open>
  The theorem at the demonstration facility: answers that differ from the stored ones in
  case and surrounding blanks advance, and one wrong answer beside a right one does not.
\<close>

theorem verifySecurityAnswers_all_or_nothing_witness:
  "verifySecurityAnswers demoFacility (\<lambda>i. if i = 0 then '' Blue '' else ''rice'') 2 = 3
   \<and> verifySecurityAnswers demoFacility (\<lambda>i. if i = 0 then ''blue'' else ''maize'') 2 = 2"
proof -
  let ?qs = "[\<lparr>question = ''What is your favorite color?'', answer = ''blue''\<rparr>,
         \<lparr>question = ''What is your favorite food?'', answer = ''rice''\<rparr>]"
  let ?good = "\<lambda>i::nat. if i = 0 then '' Blue '' else ''rice''"
  let ?bad = "\<lambda>i::nat. if i = 0 then ''blue'' else ''maize''"
  have qs: "securityQuestions demoFacility = Some ?qs"
    by (simp add: demoFacility_def)
  have g0: "toLowerCase (trim (?good 0)) = toLowerCase (answer (?qs ! 0))" by code_simp
  have g1: "toLowerCase (trim (?good 1)) = toLowerCase (answer (?qs ! 1))" by code_simp
  have b1: "toLowerCase (trim (?bad 1)) \<noteq> toLowerCase (answer (?qs ! 1))" by code_simp
  have "\<forall>i<length ?qs. toLowerCase (trim (?good i)) = toLowerCase (answer (?qs ! i))"
  proof (intro allI impI)
    fix i :: nat assume "i < length ?qs"
    then have "i = 0 \<or> i = 1" by auto
    then show "toLowerCase (trim (?good i)) = toLowerCase (answer (?qs ! i))"
      using g0 g1 by blast
  qed
  then have good: "verifySecurityAnswers demoFacility ?good 2 = 3"
    using verifySecurityAnswers_all_or_nothing [OF qs, of ?good] by blast
  have "\<not> (\<forall>i<length ?qs. toLowerCase (trim (?bad i)) = toLowerCase (answer (?qs ! i)))"
    using b1 by (metis length_Cons lessI list.size(3) One_nat_def)
  then have "verifySecurityAnswers demoFacility ?bad 2 \<noteq> 3"
    using verifySecurityAnswers_all_or_nothing [OF qs, of ?bad] by blast
  moreover have "verifySecurityAnswers demoFacility ?bad 2 = 2
      \<or> verifySecurityAnswers demoFacility ?bad 2 = 3"
    by (simp add: verifySecurityAnswers_def demoFacility_def)
  ultimately show ?thesis using good by blast
qed

text \<open>
  C10 as first stated asks for equality with the stored answer itself. Facility
  registration stores the answer trimmed but in the case it was typed, so a facility can
  hold the answers \<open>Blue\<close> and \<open>Rice\<close>: the inputs \<open>blue\<close> and \<open>rice\<close> then advance
  to step 3 although the normalised input differs from the stored answer.
\<close>

theorem verifySecurityAnswers_stored_case_counterexample:
  "verifySecurityAnswers
     \<lparr>facility_id = 2, code = ''HC01'', facility_name = ''Health Centre'', password = ''pass'',
      region = ''North'', district = ''East'',
      securityQuestions = Some [\<lparr>question = ''What is your favorite color?'', answer = ''Blue''\<rparr>,
          \<lparr>question = ''What is your favorite food?'', answer = ''Rice''\<rparr>],
      facility_createdAt = 1704067200000\<rparr>
     (\<lambda>i. if i = 0 then ''blue'' else ''rice'') 2 = 3
   \<and> toLowerCase (trim ''blue'') \<noteq> ''Blue''"
  by code_simp

text \<open>
  C9 as first stated gives the schedule 33 entries; the list in the source has 34.
\<close>

theorem vaccinationSchedule_length_counterexample: "length vaccinationSchedule \<noteq> 33"
  by (simp add: vaccinationSchedule_def)

text \<open>
  C9, as amended. The schedule is a fixed list of exactly 34 labels, no label twice. Its
  readers leave it as it is and follow its order: the immunization dialog shows one row
  per label in schedule order, and the labels offered for booking are a subsequence of
  the schedule.
\<close>

theorem vaccinationSchedule_static:
  "length vaccinationSchedule = 34 \<and> distinct vaccinationSchedule
   \<and> map row_vaccine (openImmunizationModal c unsavedDates) = vaccinationSchedule
   \<and> subseq (availableVaccines c unsavedDates) vaccinationSchedule"
proof -
  have "length vaccinationSchedule = 34" by (simp add: vaccinationSchedule_def)
  moreover have "distinct vaccinationSchedule" by (simp add: vaccinationSchedule_def)
  moreover have "map row_vaccine (openImmunizationModal c unsavedDates) = vaccinationSchedule"
    by (simp add: openImmunizationModal_def Let_def comp_def)
  moreover have "subseq (availableVaccines c unsavedDates) vaccinationSchedule"
    by (simp add: availableVaccines_def Let_def)
  ultimately show ?thesis by blast
qed

section \<open>Results about the status engine\<close>

lemma msPerDay_pos: "0 < msPerDay"
  by (simp add: msPerDay_def)

lemma daysOverdueOf_floor:
  "daysOverdueOf (Some nv) today = Some \<lfloor>real_of_int (today - nv) / real_of_int msPerDay\<rfloor>"
  by (simp only: daysOverdueOf_def option.map floor_divide_of_int_eq)

lemma daysUntilOf_ceiling:
  "daysUntilOf (Some nv) today = Some \<lceil>real_of_int (nv - today) / real_of_int msPerDay\<rceil>"
proof -
  have "\<lceil>real_of_int (nv - today) / real_of_int msPerDay\<rceil> = - ((- (nv - today)) div msPerDay)"
    by (rule ceiling_divide_eq_div)
  then show ?thesis by (simp add: daysUntilOf_def)
qed

lemma daysUntil_pos_iff: "(0 < - ((today - nv) div msPerDay)) = (today < nv)"
  using pos_imp_zdiv_neg_iff [OF msPerDay_pos, of "today - nv"] by simp

lemma daysOverdue_zero_iff:
  "((today - nv) div msPerDay = 0) = (nv \<le> today \<and> today - nv < msPerDay)"
  using msPerDay_pos by (auto simp: zdiv_eq_0_iff)

lemma daysUntil_zero_iff:
  "(- ((today - nv) div msPerDay) = 0) = (nv \<le> today \<and> today - nv < msPerDay)"
  using daysOverdue_zero_iff [of today nv] by simp

text \<open>One dose with a booked, valid next visit and no date given, in the four readers.\<close>

lemma missedVaccine_booked:
  assumes "nextVisit v \<noteq> []" "dateGiven v = []" "parse (nextVisit v) = Some nv"
  shows "missedVaccine parse today v = (nv < today)"
  using assms by (simp add: missedVaccine_def dateLess_def)

lemma dueSoonVaccine_booked:
  assumes "nextVisit v \<noteq> []" "dateGiven v = []" "parse (nextVisit v) = Some nv"
  shows "dueSoonVaccine parse today v =
     (0 < - ((today - nv) div msPerDay) \<and> - ((today - nv) div msPerDay) \<le> 7)"
  using assms by (simp add: dueSoonVaccine_def daysUntilOf_def numGreater_def numLessEq_def)

lemma upcomingVaccine_booked:
  assumes "nextVisit v \<noteq> []" "dateGiven v = []" "parse (nextVisit v) = Some nv"
  shows "upcomingVaccine parse today v =
     (7 < - ((today - nv) div msPerDay) \<and> - ((today - nv) div msPerDay) \<le> 30)"
  using assms by (simp add: upcomingVaccine_def daysUntilOf_def numGreater_def numLessEq_def)

lemma statsStep_booked:
  assumes "nextVisit v \<noteq> []" "dateGiven v = []" "parse (nextVisit v) = Some nv"
  shows "statsStep parse today (False, False, False) v =
     (nv < today,
      \<not> nv < today \<and> - ((today - nv) div msPerDay) \<le> 7,
      \<not> nv < today \<and> 7 < - ((today - nv) div msPerDay) \<and> - ((today - nv) div msPerDay) \<le> 30)"
  using assms by (simp add: statsStep_def dateLess_def daysUntilOf_def numLessEq_def Let_def)

text \<open>
  C3, as amended. Take a dose with \<open>nextVisit\<close> set to a valid date and \<open>dateGiven\<close>
  empty, and let \<open>nv\<close> be the instant \<open>nextVisit\<close> parses to. With
  \<open>daysUntil = ceil ((nv - today) / 1 day)\<close>:
  \<^item> the dose is overdue (defaulters table and the counter of \<^verbatim>\<open>updateStats\<close>) exactly
    when \<open>nv < today\<close>, the two compared as instants, and
    \<open>daysOverdue = floor ((today - nv) / 1 day)\<close>;
  \<^item> it is in the due-soon table exactly when \<open>0 < daysUntil \<le> 7\<close>, in the upcoming table
    exactly when \<open>7 < daysUntil \<le> 30\<close>, and overdue, due-soon and upcoming nowhere when
    \<open>daysUntil > 30\<close>;
  \<^item> unless \<open>nv = today\<close> to the millisecond, \<^verbatim>\<open>updateStats\<close> raises the same three flags;
  \<^item> a dose with \<open>daysUntil = 0\<close> whose instant is already behind \<open>today\<close> is overdue,
    with \<open>daysOverdue = 0\<close>; at \<open>nv = today\<close> it is neither overdue nor in the due-soon
    table.
\<close>

theorem dose_classification:
  assumes "nextVisit v \<noteq> []" and "dateGiven v = []" and "parse (nextVisit v) = Some nv"
  shows
    "(missedVaccine parse today v = (nv < today))
     \<and> (fst (statsStep parse today (False, False, False) v) = (nv < today))
     \<and> daysOverdueOf (parse (nextVisit v)) today
         = Some \<lfloor>real_of_int (today - nv) / real_of_int msPerDay\<rfloor>
     \<and> (\<exists>daysUntil. daysUntil = \<lceil>real_of_int (nv - today) / real_of_int msPerDay\<rceil>
         \<and> daysUntilOf (parse (nextVisit v)) today = Some daysUntil
         \<and> (dueSoonVaccine parse today v = (0 < daysUntil \<and> daysUntil \<le> 7))
         \<and> (upcomingVaccine parse today v = (7 < daysUntil \<and> daysUntil \<le> 30))
         \<and> (30 < daysUntil \<longrightarrow>
              \<not> missedVaccine parse today v \<and> \<not> dueSoonVaccine parse today v
              \<and> \<not> upcomingVaccine parse today v
              \<and> statsStep parse today (False, False, False) v = (False, False, False))
         \<and> (nv \<noteq> today \<longrightarrow>
              statsStep parse today (False, False, False) v
                = (missedVaccine parse today v, dueSoonVaccine parse today v,
                   upcomingVaccine parse today v))
         \<and> (daysUntil = 0 \<and> nv < today \<longrightarrow>
              missedVaccine parse today v \<and> daysOverdueOf (parse (nextVisit v)) today = Some 0)
         \<and> (nv = today \<longrightarrow>
              \<not> missedVaccine parse today v \<and> \<not> dueSoonVaccine parse today v))"
proof -
  let ?u = "- ((today - nv) div msPerDay)"
  have ceil: "\<lceil>real_of_int (nv - today) / real_of_int msPerDay\<rceil> = ?u"
    using daysUntilOf_ceiling [of nv today] by (simp add: daysUntilOf_def)
  have m: "missedVaccine parse today v = (nv < today)"
    using assms by (simp add: missedVaccine_booked [where nv = nv])
  have d: "dueSoonVaccine parse today v = (0 < ?u \<and> ?u \<le> 7)"
    using assms by (simp add: dueSoonVaccine_booked [where nv = nv])
  have u: "upcomingVaccine parse today v = (7 < ?u \<and> ?u \<le> 30)"
    using assms by (simp add: upcomingVaccine_booked [where nv = nv])
  have s: "statsStep parse today (False, False, False) v =
     (nv < today, \<not> nv < today \<and> ?u \<le> 7, \<not> nv < today \<and> 7 < ?u \<and> ?u \<le> 30)"
    using assms by (simp add: statsStep_booked [where nv = nv])
  have pos: "(0 < ?u) = (today < nv)"
    by (rule daysUntil_pos_iff)
  have zero: "(?u = 0) = (nv \<le> today \<and> today - nv < msPerDay)"
    by (rule daysUntil_zero_iff)
  have c1: "fst (statsStep parse today (False, False, False) v) = (nv < today)"
    by (simp add: s)
  have c2: "daysOverdueOf (parse (nextVisit v)) today
      = Some \<lfloor>real_of_int (today - nv) / real_of_int msPerDay\<rfloor>"
    by (simp only: assms daysOverdueOf_floor)
  have c3: "daysUntilOf (parse (nextVisit v)) today = Some ?u"
    by (simp add: assms daysUntilOf_def)
  have c4: "30 < ?u \<longrightarrow>
      \<not> missedVaccine parse today v \<and> \<not> dueSoonVaccine parse today v
      \<and> \<not> upcomingVaccine parse today v
      \<and> statsStep parse today (False, False, False) v = (False, False, False)"
    using pos by (auto simp: m d u s)
  have c5: "nv \<noteq> today \<longrightarrow>
      statsStep parse today (False, False, False) v
        = (missedVaccine parse today v, dueSoonVaccine parse today v,
           upcomingVaccine parse today v)"
    using pos by (auto simp: m d u s)
  have c6: "?u = 0 \<and> nv < today \<longrightarrow>
      missedVaccine parse today v \<and> daysOverdueOf (parse (nextVisit v)) today = Some 0"
    by (auto simp: m assms daysOverdueOf_def)
  have c7: "nv = today \<longrightarrow> \<not> missedVaccine parse today v \<and> \<not> dueSoonVaccine parse today v"
    using pos by (auto simp: m d)
  show ?thesis
    unfolding ceil using m c1 c2 c3 d u c4 c5 c6 c7 by blast
qed

text \<open>
  The theorem at a dose booked for 13 January, seen at noon on 10 January: two and a
  half days ahead, so \<open>daysUntil\<close> is 3 and the dose is due soon and not overdue.
\<close>

theorem dose_classification_witness:
  "dueSoonVaccine parseDateInput noon10Jan (bookingRecord 1 ''2024-01-13'' ''OPV1 at 6 weeks'')
   \<and> \<not> missedVaccine parseDateInput noon10Jan (bookingRecord 1 ''2024-01-13'' ''OPV1 at 6 weeks'')
   \<and> daysUntilOf (parseDateInput ''2024-01-13'') noon10Jan = Some 3"
proof -
  let ?v = "bookingRecord 1 ''2024-01-13'' ''OPV1 at 6 weeks''"
  have a: "nextVisit ?v \<noteq> []" by (simp add: bookingRecord_def)
  have b: "dateGiven ?v = []" by (simp add: bookingRecord_def)
  have c: "parseDateInput (nextVisit ?v) = Some 1705104000000" by code_simp
  have n: "nextVisit ?v = ''2024-01-13''" by (simp add: bookingRecord_def)
  have ceil: "\<lceil>real_of_int (1705104000000 - noon10Jan) / real_of_int msPerDay\<rceil> = 3"
    by (simp add: noon10Jan_def msPerDay_def)
  have lt: "\<not> (1705104000000 < noon10Jan)" by (simp add: noon10Jan_def)
  show ?thesis
    using dose_classification [where v = ?v and parse = parseDateInput
        and nv = 1705104000000 and today = noon10Jan] a b c lt
    unfolding ceil n by simp
qed

text \<open>
  A dose whose next visit cannot be read as a date is in no bucket.
\<close>

lemma unreadable_date_no_bucket:
  assumes "parse (nextVisit v) = None"
  shows "\<not> missedVaccine parse today v \<and> \<not> dueSoonVaccine parse today v
     \<and> \<not> upcomingVaccine parse today v
     \<and> statsStep parse today (False, False, False) v = (False, False, False)"
  using assms
  by (simp add: missedVaccine_def dueSoonVaccine_def upcomingVaccine_def statsStep_def
      dateLess_def daysUntilOf_def numGreater_def numLessEq_def)

text \<open>
  C3 as first stated has a dose with \<open>daysUntil = 0\<close> neither overdue nor due soon. A visit
  booked for 10 January parses to midnight UTC of that day; at noon of the same day
  \<open>daysUntil\<close> is 0 and the dose is overdue, in the defaulters table and in the counter.
  At that midnight itself, to the millisecond, \<open>daysUntil\<close> is 0 as well and the counter
  of \<^verbatim>\<open>updateStats\<close> takes the dose as due soon, which the due-soon table does not.
\<close>

theorem dose_due_today_counterexample:
  "daysUntilOf (parseDateInput ''2024-01-10'') noon10Jan = Some 0
   \<and> missedVaccine parseDateInput noon10Jan (bookingRecord 1 ''2024-01-10'' ''OPV1 at 6 weeks'')
   \<and> fst (statsStep parseDateInput noon10Jan (False, False, False)
        (bookingRecord 1 ''2024-01-10'' ''OPV1 at 6 weeks''))
   \<and> daysUntilOf (parseDateInput ''2024-01-10'') 1704844800000 = Some 0
   \<and> fst (snd (statsStep parseDateInput 1704844800000 (False, False, False)
        (bookingRecord 1 ''2024-01-10'' ''OPV1 at 6 weeks'')))
   \<and> \<not> dueSoonVaccine parseDateInput 1704844800000
        (bookingRecord 1 ''2024-01-10'' ''OPV1 at 6 weeks'')"
  by code_simp

subsection \<open>Counters and tables, child by child\<close>

lemma statsStep_flags:
  "statsStep parse today (a, b, c) v =
     (a \<or> fst (statsStep parse today (False, False, False) v),
      b \<or> fst (snd (statsStep parse today (False, False, False) v)),
      c \<or> snd (snd (statsStep parse today (False, False, False) v)))"
  by (simp add: statsStep_def Let_def)

lemma foldl_statsStep:
  "foldl (statsStep parse today) (a, b, c) vs =
     (a \<or> (\<exists>v\<in>set vs. fst (statsStep parse today (False, False, False) v)),
      b \<or> (\<exists>v\<in>set vs. fst (snd (statsStep parse today (False, False, False) v))),
      c \<or> (\<exists>v\<in>set vs. snd (snd (statsStep parse today (False, False, False) v))))"
proof (induction vs arbitrary: a b c)
  case Nil
  show ?case by simp
next
  case (Cons v vs)
  show ?case
    by (subst foldl_Cons, subst statsStep_flags, subst Cons.IH) auto
qed

lemma countChild_counts:
  "defaulterCount (countChild parse today st c) =
     defaulterCount st + (if \<exists>v\<in>set (vaccinations c). fst (statsStep parse today (False, False, False) v) then 1 else 0)"
  "dueSoonCount (countChild parse today st c) =
     dueSoonCount st + (if \<exists>v\<in>set (vaccinations c). fst (snd (statsStep parse today (False, False, False) v)) then 1 else 0)"
  "upcomingCount (countChild parse today st c) =
     upcomingCount st + (if \<exists>v\<in>set (vaccinations c). snd (snd (statsStep parse today (False, False, False) v)) then 1 else 0)"
  by (simp_all add: countChild_def foldl_statsStep)

lemma foldl_countChild:
  "defaulterCount (foldl (countChild parse today) st cs) =
     defaulterCount st
       + length (filter (\<lambda>c. \<exists>v\<in>set (vaccinations c). fst (statsStep parse today (False, False, False) v)) cs)"
  "dueSoonCount (foldl (countChild parse today) st cs) =
     dueSoonCount st
       + length (filter (\<lambda>c. \<exists>v\<in>set (vaccinations c). fst (snd (statsStep parse today (False, False, False) v))) cs)"
  "upcomingCount (foldl (countChild parse today) st cs) =
     upcomingCount st
       + length (filter (\<lambda>c. \<exists>v\<in>set (vaccinations c). snd (snd (statsStep parse today (False, False, False) v))) cs)"
  by (induction cs arbitrary: st) (simp_all add: countChild_counts)

lemma tableLoop_skips_counted:
  "r \<in> set (tableLoop qualifies days parse counted cs) \<Longrightarrow> regNo (row_child r) \<notin> counted"
proof (induction cs arbitrary: counted)
  case Nil
  then show ?case by simp
next
  case (Cons c cs)
  then show ?case
    by (auto simp: Let_def split: if_splits list.splits)
qed

lemma tableLoop_distinct:
  "distinct (map (\<lambda>r. regNo (row_child r)) (tableLoop qualifies days parse counted cs))"
proof (induction cs arbitrary: counted)
  case Nil
  show ?case by simp
next
  case (Cons c cs)
  have fresh: "\<forall>r\<in>set (tableLoop qualifies days parse (insert (regNo c) counted) cs).
      regNo (row_child r) \<noteq> regNo c"
    using tableLoop_skips_counted [of _ qualifies days parse "insert (regNo c) counted" cs]
    by fastforce
  show ?case
    using Cons.IH fresh by (auto simp: Let_def split: list.splits)
qed

lemma tableLoop_rows:
  "r \<in> set (tableLoop qualifies days parse counted cs) \<Longrightarrow>
     row_child r \<in> set cs
     \<and> (\<exists>v vs. filter qualifies (vaccinations (row_child r)) = v # vs
           \<and> row_vaccination r = reduceEarliest parse v vs)
     \<and> row_days r = days (row_vaccination r)"
proof (induction cs arbitrary: counted)
  case Nil
  then show ?case by simp
next
  case (Cons c cs)
  then show ?case
    by (auto simp: Let_def split: if_splits list.splits)
qed

lemma tableLoop_children:
  assumes "distinct (map regNo cs)" and "regNo ` set cs \<inter> counted = {}"
  shows "map row_child (tableLoop qualifies days parse counted cs)
     = filter (\<lambda>c. \<exists>v\<in>set (vaccinations c). qualifies v) cs"
  using assms
proof (induction cs arbitrary: counted)
  case Nil
  show ?case by simp
next
  case (Cons c cs)
  have notin: "regNo c \<notin> counted"
    using Cons.prems by auto
  have rest: "regNo ` set cs \<inter> insert (regNo c) counted = {}" "regNo ` set cs \<inter> counted = {}"
    "distinct (map regNo cs)"
    using Cons.prems by auto
  show ?case
  proof (cases "filter qualifies (vaccinations c)")
    case Nil
    then have "\<not> (\<exists>v\<in>set (vaccinations c). qualifies v)"
      by (simp add: filter_empty_conv)
    then show ?thesis
      using Nil notin Cons.IH [OF rest(3) rest(2)] by simp
  next
    case (Cons v vs)
    then have "\<exists>v\<in>set (vaccinations c). qualifies v"
      by (metis filter_empty_conv list.distinct(1))
    then show ?thesis
      using Cons notin Cons.IH [OF rest(3) rest(1)] by (simp add: Let_def)
  qed
qed

lemma tableLoop_first:
  "map row_child (tableLoop qualifies days parse counted cs)
     = firstPerRegNo counted (filter (\<lambda>c. \<exists>v\<in>set (vaccinations c). qualifies v) cs)"
proof (induction cs arbitrary: counted)
  case Nil
  show ?case by simp
next
  case (Cons c cs)
  show ?case
  proof (cases "filter qualifies (vaccinations c)")
    case Nil
    then have "\<not> (\<exists>v\<in>set (vaccinations c). qualifies v)"
      by (simp add: filter_empty_conv)
    then show ?thesis
      using Nil Cons.IH by simp
  next
    case (Cons v vs)
    then have "\<exists>v\<in>set (vaccinations c). qualifies v"
      by (metis filter_empty_conv list.distinct(1))
    then show ?thesis
      using Cons Cons.IH by (simp add: Let_def)
  qed
qed

lemma firstPerRegNo_covers:
  "c \<in> set cs \<Longrightarrow> regNo c \<in> seen \<or> regNo c \<in> regNo ` set (firstPerRegNo seen cs)"
proof (induction cs arbitrary: seen)
  case Nil
  then show ?case by simp
next
  case (Cons d cs)
  show ?case
  proof (cases "c = d")
    case True
    then show ?thesis by simp
  next
    case False
    then have c: "c \<in> set cs" using Cons.prems by simp
    show ?thesis
      using Cons.IH [OF c, of seen] Cons.IH [OF c, of "insert (regNo d) seen"] by auto
  qed
qed

lemma tableLoop_covers:
  assumes "c \<in> set cs" and "\<exists>v\<in>set (vaccinations c). qualifies v"
  shows "regNo c \<in> (\<lambda>r. regNo (row_child r)) ` set (tableLoop qualifies days parse {} cs)"
proof -
  have "c \<in> set (filter (\<lambda>c. \<exists>v\<in>set (vaccinations c). qualifies v) cs)"
    using assms by simp
  then have "regNo c \<in> regNo ` set (firstPerRegNo {} (filter (\<lambda>c. \<exists>v\<in>set (vaccinations c). qualifies v) cs))"
    using firstPerRegNo_covers [of c _ "{}"] by blast
  then have "regNo c \<in> regNo ` set (map row_child (tableLoop qualifies days parse {} cs))"
    by (simp only: tableLoop_first)
  then show ?thesis
    by (simp add: image_image)
qed

text \<open>
  C1, as amended. Every child is counted at most once per bucket, and the buckets are
  filled independently of each other. The counters of \<^verbatim>\<open>updateStats\<close> are the numbers
  of children with at least one dose that raises the flag of the bucket. Each table has
  one row per registration number: it lists, in the order of the children, the children
  with a dose that passes the table's filter, leaving out a child whose registration
  number an earlier listed child has; so no registration number occurs twice in a table,
  the registration number of every child with a qualifying dose is in the table, and for
  children with different registration numbers the table lists exactly the children with
  a qualifying dose. A child with an overdue dose and a dose in the 1 to 7 day window is
  therefore in the defaulter bucket and in the due-soon bucket.
\<close>

theorem buckets_once_per_child:
  "defaulterCount (updateStats parse today cs)
     = length (filter (\<lambda>c. \<exists>v\<in>set (vaccinations c).
                 fst (statsStep parse today (False, False, False) v)) cs)
   \<and> dueSoonCount (updateStats parse today cs)
     = length (filter (\<lambda>c. \<exists>v\<in>set (vaccinations c).
                 fst (snd (statsStep parse today (False, False, False) v))) cs)
   \<and> upcomingCount (updateStats parse today cs)
     = length (filter (\<lambda>c. \<exists>v\<in>set (vaccinations c).
                 snd (snd (statsStep parse today (False, False, False) v))) cs)
   \<and> map row_child (updateDefaultersTable parse today cs)
     = firstPerRegNo {} (filter (\<lambda>c. \<exists>v\<in>set (vaccinations c). missedVaccine parse today v) cs)
   \<and> map row_child (updateDueSoonTable parse today cs)
     = firstPerRegNo {} (filter (\<lambda>c. \<exists>v\<in>set (vaccinations c). dueSoonVaccine parse today v) cs)
   \<and> map row_child (updateUpcomingTable parse today cs)
     = firstPerRegNo {} (filter (\<lambda>c. \<exists>v\<in>set (vaccinations c). upcomingVaccine parse today v) cs)
   \<and> distinct (map (\<lambda>r. regNo (row_child r)) (updateDefaultersTable parse today cs))
   \<and> distinct (map (\<lambda>r. regNo (row_child r)) (updateDueSoonTable parse today cs))
   \<and> distinct (map (\<lambda>r. regNo (row_child r)) (updateUpcomingTable parse today cs))
   \<and> (\<forall>c\<in>set cs.
        ((\<exists>v\<in>set (vaccinations c). missedVaccine parse today v) \<longrightarrow>
           regNo c \<in> (\<lambda>r. regNo (row_child r)) ` set (updateDefaultersTable parse today cs))
        \<and> ((\<exists>v\<in>set (vaccinations c). dueSoonVaccine parse today v) \<longrightarrow>
           regNo c \<in> (\<lambda>r. regNo (row_child r)) ` set (updateDueSoonTable parse today cs))
        \<and> ((\<exists>v\<in>set (vaccinations c). upcomingVaccine parse today v) \<longrightarrow>
           regNo c \<in> (\<lambda>r. regNo (row_child r)) ` set (updateUpcomingTable parse today cs)))
   \<and> (distinct (map regNo cs) \<longrightarrow>
        map row_child (updateDefaultersTable parse today cs)
          = filter (\<lambda>c. \<exists>v\<in>set (vaccinations c). missedVaccine parse today v) cs
        \<and> map row_child (updateDueSoonTable parse today cs)
          = filter (\<lambda>c. \<exists>v\<in>set (vaccinations c). dueSoonVaccine parse today v) cs
        \<and> map row_child (updateUpcomingTable parse today cs)
          = filter (\<lambda>c. \<exists>v\<in>set (vaccinations c). upcomingVaccine parse today v) cs)"
proof -
  have counts:
    "defaulterCount (updateStats parse today cs)
       = length (filter (\<lambda>c. \<exists>v\<in>set (vaccinations c).
                   fst (statsStep parse today (False, False, False) v)) cs)"
    "dueSoonCount (updateStats parse today cs)
       = length (filter (\<lambda>c. \<exists>v\<in>set (vaccinations c).
                   fst (snd (statsStep parse today (False, False, False) v))) cs)"
    "upcomingCount (updateStats parse today cs)
       = length (filter (\<lambda>c. \<exists>v\<in>set (vaccinations c).
                   snd (snd (statsStep parse today (False, False, False) v))) cs)"
    by (simp_all add: updateStats_def foldl_countChild)
  have rows:
    "map row_child (updateDefaultersTable parse today cs)
       = firstPerRegNo {} (filter (\<lambda>c. \<exists>v\<in>set (vaccinations c). missedVaccine parse today v) cs)"
    "map row_child (updateDueSoonTable parse today cs)
       = firstPerRegNo {} (filter (\<lambda>c. \<exists>v\<in>set (vaccinations c). dueSoonVaccine parse today v) cs)"
    "map row_child (updateUpcomingTable parse today cs)
       = firstPerRegNo {} (filter (\<lambda>c. \<exists>v\<in>set (vaccinations c). upcomingVaccine parse today v) cs)"
    by (simp_all only: updateDefaultersTable_def updateDueSoonTable_def
          updateUpcomingTable_def tableLoop_first)
  have once:
    "distinct (map (\<lambda>r. regNo (row_child r)) (updateDefaultersTable parse today cs))"
    "distinct (map (\<lambda>r. regNo (row_child r)) (updateDueSoonTable parse today cs))"
    "distinct (map (\<lambda>r. regNo (row_child r)) (updateUpcomingTable parse today cs))"
    by (simp_all only: updateDefaultersTable_def updateDueSoonTable_def
          updateUpcomingTable_def tableLoop_distinct)
  have covered: "\<forall>c\<in>set cs.
        ((\<exists>v\<in>set (vaccinations c). missedVaccine parse today v) \<longrightarrow>
           regNo c \<in> (\<lambda>r. regNo (row_child r)) ` set (updateDefaultersTable parse today cs))
        \<and> ((\<exists>v\<in>set (vaccinations c). dueSoonVaccine parse today v) \<longrightarrow>
           regNo c \<in> (\<lambda>r. regNo (row_child r)) ` set (updateDueSoonTable parse today cs))
        \<and> ((\<exists>v\<in>set (vaccinations c). upcomingVaccine parse today v) \<longrightarrow>
           regNo c \<in> (\<lambda>r. regNo (row_child r)) ` set (updateUpcomingTable parse today cs))"
    unfolding updateDefaultersTable_def updateDueSoonTable_def updateUpcomingTable_def
    using tableLoop_covers by blast
  have members: "distinct (map regNo cs) \<longrightarrow>
        map row_child (updateDefaultersTable parse today cs)
          = filter (\<lambda>c. \<exists>v\<in>set (vaccinations c). missedVaccine parse today v) cs
        \<and> map row_child (updateDueSoonTable parse today cs)
          = filter (\<lambda>c. \<exists>v\<in>set (vaccinations c). dueSoonVaccine parse today v) cs
        \<and> map row_child (updateUpcomingTable parse today cs)
          = filter (\<lambda>c. \<exists>v\<in>set (vaccinations c). upcomingVaccine parse today v) cs"
    by (simp add: updateDefaultersTable_def updateDueSoonTable_def updateUpcomingTable_def
          tableLoop_children)
  show ?thesis
    using counts rows once covered members by blast
qed

text \<open>
  The theorem at the three example children at noon on 10 January. The first child has
  two overdue doses and one due soon, the second is overdue and carries the registration
  number of the first, the third has an upcoming dose. Two children are counted as
  defaulters, one as due soon and one as upcoming; the defaulters table has the one row
  of the first child for the shared registration number, the due-soon table has that
  child again, and the upcoming table has the third child. Without the first child the
  registration numbers differ, and the defaulters table lists the second child.
\<close>

theorem buckets_once_per_child_witness:
  "defaulterCount (updateStats parseDateInput noon10Jan exampleRegister) = 2
   \<and> dueSoonCount (updateStats parseDateInput noon10Jan exampleRegister) = 1
   \<and> upcomingCount (updateStats parseDateInput noon10Jan exampleRegister) = 1
   \<and> map (\<lambda>r. name (row_child r)) (updateDefaultersTable parseDateInput noon10Jan exampleRegister)
       = [''Ama Mensah'']
   \<and> map (\<lambda>r. name (row_child r)) (updateDueSoonTable parseDateInput noon10Jan exampleRegister)
       = [''Ama Mensah'']
   \<and> map (\<lambda>r. name (row_child r)) (updateUpcomingTable parseDateInput noon10Jan exampleRegister)
       = [''Abena Osei'']
   \<and> ''001/2024'' \<in> (\<lambda>r. regNo (row_child r)) ` set (updateDefaultersTable parseDateInput noon10Jan exampleRegister)
   \<and> distinct (map regNo (tl exampleRegister))
   \<and> map (\<lambda>r. name (row_child r)) (updateDefaultersTable parseDateInput noon10Jan (tl exampleRegister))
       = [''Yaw Darko'']
   \<and> map (\<lambda>r. name (row_child r)) (updateDueSoonTable parseDateInput noon10Jan (tl exampleRegister))
       = []
   \<and> map (\<lambda>r. name (row_child r)) (updateUpcomingTable parseDateInput noon10Jan (tl exampleRegister))
       = [''Abena Osei'']"
proof -
  have c1: "length (filter (\<lambda>c. \<exists>v\<in>set (vaccinations c).
        fst (statsStep parseDateInput noon10Jan (False, False, False) v)) exampleRegister) = 2"
    by code_simp
  have c2: "length (filter (\<lambda>c. \<exists>v\<in>set (vaccinations c).
        fst (snd (statsStep parseDateInput noon10Jan (False, False, False) v))) exampleRegister) = 1"
    by code_simp
  have c3: "length (filter (\<lambda>c. \<exists>v\<in>set (vaccinations c).
        snd (snd (statsStep parseDateInput noon10Jan (False, False, False) v))) exampleRegister) = 1"
    by code_simp
  have t1: "map name (firstPerRegNo {} (filter (\<lambda>c. \<exists>v\<in>set (vaccinations c).
        missedVaccine parseDateInput noon10Jan v) exampleRegister)) = [''Ama Mensah'']"
    by code_simp
  have t2: "map name (firstPerRegNo {} (filter (\<lambda>c. \<exists>v\<in>set (vaccinations c).
        dueSoonVaccine parseDateInput noon10Jan v) exampleRegister)) = [''Ama Mensah'']"
    by code_simp
  have t3: "map name (firstPerRegNo {} (filter (\<lambda>c. \<exists>v\<in>set (vaccinations c).
        upcomingVaccine parseDateInput noon10Jan v) exampleRegister)) = [''Abena Osei'']"
    by code_simp
  have second: "exampleRegister ! 1 \<in> set exampleRegister
      \<and> regNo (exampleRegister ! 1) = ''001/2024''
      \<and> (\<exists>v\<in>set (vaccinations (exampleRegister ! 1)). missedVaccine parseDateInput noon10Jan v)"
    by code_simp
  have d: "distinct (map regNo (tl exampleRegister))"
    by code_simp
  have u1: "map name (filter (\<lambda>c. \<exists>v\<in>set (vaccinations c).
        missedVaccine parseDateInput noon10Jan v) (tl exampleRegister)) = [''Yaw Darko'']"
    by code_simp
  have u2: "map name (filter (\<lambda>c. \<exists>v\<in>set (vaccinations c).
        dueSoonVaccine parseDateInput noon10Jan v) (tl exampleRegister)) = []"
    by code_simp
  have u3: "map name (filter (\<lambda>c. \<exists>v\<in>set (vaccinations c).
        upcomingVaccine parseDateInput noon10Jan v) (tl exampleRegister)) = [''Abena Osei'']"
    by code_simp
  have names: "map (\<lambda>r. name (row_child r)) rows = map name (map row_child rows)" for rows
    by simp
  have whole: "defaulterCount (updateStats parseDateInput noon10Jan exampleRegister) = 2
   \<and> dueSoonCount (updateStats parseDateInput noon10Jan exampleRegister) = 1
   \<and> upcomingCount (updateStats parseDateInput noon10Jan exampleRegister) = 1
   \<and> map (\<lambda>r. name (row_child r)) (updateDefaultersTable parseDateInput noon10Jan exampleRegister)
       = [''Ama Mensah'']
   \<and> map (\<lambda>r. name (row_child r)) (updateDueSoonTable parseDateInput noon10Jan exampleRegister)
       = [''Ama Mensah'']
   \<and> map (\<lambda>r. name (row_child r)) (updateUpcomingTable parseDateInput noon10Jan exampleRegister)
       = [''Abena Osei'']"
    unfolding names
    using buckets_once_per_child [of parseDateInput noon10Jan exampleRegister] c1 c2 c3 t1 t2 t3
    by simp
  have covered: "''001/2024'' \<in> (\<lambda>r. regNo (row_child r)) `
      set (updateDefaultersTable parseDateInput noon10Jan exampleRegister)"
    using buckets_once_per_child [of parseDateInput noon10Jan exampleRegister] second
    by metis
  have eqs: "map row_child (updateDefaultersTable parseDateInput noon10Jan (tl exampleRegister))
          = filter (\<lambda>c. \<exists>v\<in>set (vaccinations c). missedVaccine parseDateInput noon10Jan v)
              (tl exampleRegister)
        \<and> map row_child (updateDueSoonTable parseDateInput noon10Jan (tl exampleRegister))
          = filter (\<lambda>c. \<exists>v\<in>set (vaccinations c). dueSoonVaccine parseDateInput noon10Jan v)
              (tl exampleRegister)
        \<and> map row_child (updateUpcomingTable parseDateInput noon10Jan (tl exampleRegister))
          = filter (\<lambda>c. \<exists>v\<in>set (vaccinations c). upcomingVaccine parseDateInput noon10Jan v)
              (tl exampleRegister)"
    using buckets_once_per_child [of parseDateInput noon10Jan "tl exampleRegister"] d by blast
  have rest: "map (\<lambda>r. name (row_child r)) (updateDefaultersTable parseDateInput noon10Jan (tl exampleRegister))
       = [''Yaw Darko'']
   \<and> map (\<lambda>r. name (row_child r)) (updateDueSoonTable parseDateInput noon10Jan (tl exampleRegister))
       = []
   \<and> map (\<lambda>r. name (row_child r)) (updateUpcomingTable parseDateInput noon10Jan (tl exampleRegister))
       = [''Abena Osei'']"
    by (simp only: names eqs u1 u2 u3)
  show ?thesis
    using whole covered d rest by blast
qed

text \<open>
  C1 as first stated keeps a child with an overdue dose out of the other buckets. A
  child with one visit booked for 5 January and one for 13 January is, at noon on
  10 January, counted as a defaulter and as due soon, and has a row in both tables. The
  save path books all visits of one save for one day, so rows like these come in with a
  restored backup: the document is restored, the rows are attached to the child as the
  start of the application does, and the counters and tables are the same.
\<close>

theorem buckets_not_exclusive_counterexample:
  "defaulterCount (updateStats parseDateInput noon10Jan
       [exampleChild [bookingRecord 1 ''2024-01-05'' ''BCG at Birth'',
                      bookingRecord 1 ''2024-01-13'' ''OPV1 at 6 weeks'']]) = 1
   \<and> dueSoonCount (updateStats parseDateInput noon10Jan
       [exampleChild [bookingRecord 1 ''2024-01-05'' ''BCG at Birth'',
                      bookingRecord 1 ''2024-01-13'' ''OPV1 at 6 weeks'']]) = 1
   \<and> map (\<lambda>r. regNo (row_child r)) (updateDefaultersTable parseDateInput noon10Jan
       [exampleChild [bookingRecord 1 ''2024-01-05'' ''BCG at Birth'',
                      bookingRecord 1 ''2024-01-13'' ''OPV1 at 6 weeks'']]) = [''001/2024'']
   \<and> map (\<lambda>r. regNo (row_child r)) (updateDueSoonTable parseDateInput noon10Jan
       [exampleChild [bookingRecord 1 ''2024-01-05'' ''BCG at Birth'',
                      bookingRecord 1 ''2024-01-13'' ''OPV1 at 6 weeks'']]) = [''001/2024'']
   \<and> fst (restore (\<lambda>k. False) True (Json twoDateBackup) (exampleDb [bcgGiven])) = Restored
   \<and> defaulterCount (updateStats parseDateInput noon10Jan
       (map (attachVaccinations (snd (restore (\<lambda>k. False) True (Json twoDateBackup) (exampleDb [bcgGiven]))))
          (children_tbl (snd (restore (\<lambda>k. False) True (Json twoDateBackup) (exampleDb [bcgGiven])))))) = 1
   \<and> dueSoonCount (updateStats parseDateInput noon10Jan
       (map (attachVaccinations (snd (restore (\<lambda>k. False) True (Json twoDateBackup) (exampleDb [bcgGiven]))))
          (children_tbl (snd (restore (\<lambda>k. False) True (Json twoDateBackup) (exampleDb [bcgGiven])))))) = 1"
  by code_simp

subsection \<open>The featured dose\<close>

lemma dateLess_Some: "dateLess (Some a) (Some b) = (a < b)"
  by (simp add: dateLess_def)

lemma reduceEarliest_lastEarliest:
  assumes "\<forall>x\<in>set (v # vs). \<exists>t. parse (nextVisit x) = Some t"
  shows "lastEarliest parse (v # vs) (reduceEarliest parse v vs)"
  using assms
proof (induction vs arbitrary: v)
  case Nil
  have "[v] = [] @ v # []" by simp
  then show ?case
    unfolding lastEarliest_def reduceEarliest.simps by (metis empty_iff list.set(1))
next
  case (Cons c rest)
  obtain tv tc where tv: "parse (nextVisit v) = Some tv" and tc: "parse (nextVisit c) = Some tc"
    using Cons.prems by auto
  have valid_rest: "\<forall>x\<in>set rest. \<exists>t. parse (nextVisit x) = Some t"
    using Cons.prems by simp
  show ?case
  proof (cases "tv < tc")
    case True
    let ?r = "reduceEarliest parse v rest"
    have step: "reduceEarliest parse v (c # rest) = ?r"
      using True by (simp add: tv tc dateLess_Some)
    have "lastEarliest parse (v # rest) ?r"
      using Cons.IH [of v] tv valid_rest by simp
    then obtain ys zs where split: "v # rest = ys @ ?r # zs"
        and before: "\<forall>y\<in>set ys. \<not> dateLess (parse (nextVisit y)) (parse (nextVisit ?r))"
        and after: "\<forall>z\<in>set zs. dateLess (parse (nextVisit ?r)) (parse (nextVisit z))"
      unfolding lastEarliest_def by blast
    show ?thesis
    proof (cases ys)
      case Nil
      have eq: "v # rest = ?r # zs"
        using split unfolding Nil by (simp only: append_Nil)
      have r: "?r = v"
        using eq by (metis list.inject)
      have zs: "zs = rest"
        using eq by (metis list.inject)
      have "v # c # rest = [] @ ?r # (c # zs)"
        using r zs by simp
      moreover have "\<forall>z\<in>set (c # zs). dateLess (parse (nextVisit ?r)) (parse (nextVisit z))"
        using after True by (simp add: r tv tc dateLess_Some)
      ultimately show ?thesis
        unfolding lastEarliest_def step by (metis empty_iff list.set(1))
    next
      case (Cons y ys1)
      have eq: "v # rest = y # (ys1 @ ?r # zs)"
        using split unfolding Cons by (simp only: append_Cons)
      have y: "y = v"
        using eq by (metis list.inject)
      have rest: "rest = ys1 @ ?r # zs"
        using eq by (metis list.inject)
      have "?r \<in> set (ys1 @ ?r # zs)"
        by simp
      then have "?r \<in> set rest"
        by (simp only: rest [symmetric])
      then obtain tr where tr: "parse (nextVisit ?r) = Some tr"
        using valid_rest by blast
      have "\<not> tv < tr"
        using before Cons y by (simp add: tv tr dateLess_Some)
      then have "\<not> dateLess (parse (nextVisit c)) (parse (nextVisit ?r))"
        using True by (simp add: tc tr dateLess_Some)
      then have "\<forall>y\<in>set (v # c # ys1). \<not> dateLess (parse (nextVisit y)) (parse (nextVisit ?r))"
        using before Cons y by simp
      moreover have "v # c # rest = (v # c # ys1) @ ?r # zs"
        using rest by simp
      ultimately show ?thesis
        unfolding lastEarliest_def step using after by blast
    qed
  next
    case False
    let ?r = "reduceEarliest parse c rest"
    have step: "reduceEarliest parse v (c # rest) = ?r"
      using False by (simp add: tv tc dateLess_Some)
    have "lastEarliest parse (c # rest) ?r"
      using Cons.IH [of c] tc valid_rest by simp
    then obtain ys zs where split: "c # rest = ys @ ?r # zs"
        and before: "\<forall>y\<in>set ys. \<not> dateLess (parse (nextVisit y)) (parse (nextVisit ?r))"
        and after: "\<forall>z\<in>set zs. dateLess (parse (nextVisit ?r)) (parse (nextVisit z))"
      unfolding lastEarliest_def by blast
    have "?r \<in> set (c # rest)"
      using split by (metis in_set_conv_decomp)
    then obtain tr where tr: "parse (nextVisit ?r) = Some tr"
      using tc valid_rest by auto
    have "\<not> tc < tr"
    proof (cases ys)
      case Nil
      have "c # rest = ?r # zs"
        using split unfolding Nil by (simp only: append_Nil)
      then have "?r = c" by (metis list.inject)
      then show ?thesis using tc tr by simp
    next
      case (Cons y ys1)
      have "c # rest = y # (ys1 @ ?r # zs)"
        using split unfolding Cons by (simp only: append_Cons)
      then have "y = c" by (metis list.inject)
      then show ?thesis using before Cons by (simp add: tc tr dateLess_Some)
    qed
    then have "\<not> dateLess (parse (nextVisit v)) (parse (nextVisit ?r))"
      using False by (simp add: tv tr dateLess_Some)
    then have "\<forall>y\<in>set (v # ys). \<not> dateLess (parse (nextVisit y)) (parse (nextVisit ?r))"
      using before by simp
    moreover have "v # c # rest = (v # ys) @ ?r # zs"
      using split by simp
    ultimately show ?thesis
      unfolding lastEarliest_def step using after by blast
  qed
qed

lemma qualifying_valid:
  "missedVaccine parse today v \<Longrightarrow> \<exists>t. parse (nextVisit v) = Some t"
  "dueSoonVaccine parse today v \<Longrightarrow> \<exists>t. parse (nextVisit v) = Some t"
  "upcomingVaccine parse today v \<Longrightarrow> \<exists>t. parse (nextVisit v) = Some t"
  by (auto simp: missedVaccine_def dueSoonVaccine_def upcomingVaccine_def dateLess_def
      numGreater_def daysUntilOf_def Let_def split: if_splits option.splits)

lemma tableLoop_featured:
  assumes "r \<in> set (tableLoop qualifies days parse counted cs)"
    and "\<And>v. qualifies v \<Longrightarrow> \<exists>t. parse (nextVisit v) = Some t"
  shows "lastEarliest parse (filter qualifies (vaccinations (row_child r))) (row_vaccination r)"
proof -
  obtain v vs where f: "filter qualifies (vaccinations (row_child r)) = v # vs"
      and r: "row_vaccination r = reduceEarliest parse v vs"
    using tableLoop_rows [OF assms(1)] by blast
  have "set (v # vs) = {x \<in> set (vaccinations (row_child r)). qualifies x}"
    using f [symmetric] by simp
  then have "\<forall>x\<in>set (v # vs). qualifies x"
    by blast
  then have "\<forall>x\<in>set (v # vs). \<exists>t. parse (nextVisit x) = Some t"
    using assms(2) by blast
  then show ?thesis
    unfolding f r by (rule reduceEarliest_lastEarliest)
qed

text \<open>
  C6, as amended. In each of the three tables the featured dose of a row is one of the
  child's qualifying doses with the earliest \<open>nextVisit\<close> among them, and when several
  qualifying doses share that earliest date it is the one that comes last in input order:
  no qualifying dose before it is earlier, and every qualifying dose after it is strictly
  later.
\<close>

theorem featured_dose_last_earliest:
  "(\<forall>r\<in>set (updateDefaultersTable parse today cs).
      lastEarliest parse (filter (missedVaccine parse today) (vaccinations (row_child r)))
        (row_vaccination r))
   \<and> (\<forall>r\<in>set (updateDueSoonTable parse today cs).
      lastEarliest parse (filter (dueSoonVaccine parse today) (vaccinations (row_child r)))
        (row_vaccination r))
   \<and> (\<forall>r\<in>set (updateUpcomingTable parse today cs).
      lastEarliest parse (filter (upcomingVaccine parse today) (vaccinations (row_child r)))
        (row_vaccination r))"
  unfolding updateDefaultersTable_def updateDueSoonTable_def updateUpcomingTable_def
  using tableLoop_featured qualifying_valid by blast

text \<open>
  The theorem at a child with two doses in the due-soon window, the second one earlier:
  the row features the second dose.
\<close>

theorem featured_dose_last_earliest_witness:
  "lastEarliest parseDateInput
     (filter (dueSoonVaccine parseDateInput noon10Jan)
        (vaccinations (exampleChild [bookingRecord 1 ''2024-01-14'' ''OPV1 at 6 weeks'',
                                     bookingRecord 1 ''2024-01-12'' ''Penta1 at 6 weeks''])))
     (bookingRecord 1 ''2024-01-12'' ''Penta1 at 6 weeks'')"
proof -
  let ?c = "exampleChild [bookingRecord 1 ''2024-01-14'' ''OPV1 at 6 weeks'',
                          bookingRecord 1 ''2024-01-12'' ''Penta1 at 6 weeks'']"
  let ?r = "\<lparr>row_child = ?c, row_vaccination = bookingRecord 1 ''2024-01-12'' ''Penta1 at 6 weeks'',
             row_days = Some 2\<rparr>"
  have "updateDueSoonTable parseDateInput noon10Jan [?c] = [?r]"
    by code_simp
  then have "?r \<in> set (updateDueSoonTable parseDateInput noon10Jan [?c])"
    by simp
  then have "lastEarliest parseDateInput
      (filter (dueSoonVaccine parseDateInput noon10Jan) (vaccinations (row_child ?r)))
      (row_vaccination ?r)"
    using featured_dose_last_earliest [of parseDateInput noon10Jan "[?c]"] by blast
  then show ?thesis by simp
qed

text \<open>
  C6 as first stated lets the first of several doses with the same earliest date win.
  With two doses booked for 13 January, both due soon at noon on 10 January, the row of
  the due-soon table features the second.
\<close>

theorem featured_dose_tie_counterexample:
  "map vaccine (filter (dueSoonVaccine parseDateInput noon10Jan)
       (vaccinations (exampleChild [bookingRecord 1 ''2024-01-13'' ''OPV1 at 6 weeks'',
                                    bookingRecord 1 ''2024-01-13'' ''Penta1 at 6 weeks''])))
     = [''OPV1 at 6 weeks'', ''Penta1 at 6 weeks'']
   \<and> map (\<lambda>r. vaccine (row_vaccination r)) (updateDueSoonTable parseDateInput noon10Jan
       [exampleChild [bookingRecord 1 ''2024-01-13'' ''OPV1 at 6 weeks'',
                      bookingRecord 1 ''2024-01-13'' ''Penta1 at 6 weeks'']])
     = [''Penta1 at 6 weeks'']"
  by code_simp

subsection \<open>The cached defaulter flag\<close>



text \<open>
  On its own the function looks at \<open>nextVisit\<close> alone, where the defaulters table and
  the counter also ask for an empty \<open>dateGiven\<close>: a dose given on 4 January that still
  carried a next visit on 5 January would raise the flag at noon on 10 January, while the
  table is empty and the counter stays at 0. The function is called on rows of a save
  only, and a save writes no such row.
\<close>

lemma updateDefaulterStatus_on_given_dose:
  "isDefaulter (updateDefaulterStatus parseDateInput noon10Jan
       (exampleChild [\<lparr>vacc_id = 7, childId = 1, vaccine = ''BCG at Birth'',
          dateGiven = ''2024-01-04'', batchNumber = ''B12'', placeGiven = ''Clinic'',
          remarks = ''given'', nextVisit = ''2024-01-05'', status = ''completed''\<rparr>]))
   \<and> updateDefaultersTable parseDateInput noon10Jan
       [exampleChild [\<lparr>vacc_id = 7, childId = 1, vaccine = ''BCG at Birth'',
          dateGiven = ''2024-01-04'', batchNumber = ''B12'', placeGiven = ''Clinic'',
          remarks = ''given'', nextVisit = ''2024-01-05'', status = ''completed''\<rparr>]] = []
   \<and> defaulterCount (updateStats parseDateInput noon10Jan
       [exampleChild [\<lparr>vacc_id = 7, childId = 1, vaccine = ''BCG at Birth'',
          dateGiven = ''2024-01-04'', batchNumber = ''B12'', placeGiven = ''Clinic'',
          remarks = ''given'', nextVisit = ''2024-01-05'', status = ''completed''\<rparr>]]) = 0"
  by code_simp

section \<open>Results about the save path\<close>

lemma saveRecords_shape:
  assumes "r \<in> set (saveRecords cid rows bookNextVisit nextVisitDate nextVisitVaccines)"
  shows "childId r = cid
     \<and> (dateGiven r \<noteq> [] \<longrightarrow> status r = ''completed'' \<and> nextVisit r = [])
     \<and> (nextVisit r \<noteq> [] \<and> dateGiven r = [] \<longrightarrow> status r = ''scheduled'')
     \<and> (dateGiven r = [] \<and> nextVisit r = [] \<longrightarrow>
          status r = ''pending''
          \<and> (batchNumber r \<noteq> [] \<or> placeGiven r \<noteq> [] \<or> remarks r \<noteq> []))"
  using assms
  by (auto simp: saveRecords_def rowRecord_def bookingRecord_def split: if_splits)

lemma addAll_rows:
  "v \<in> set (vaccinations_tbl (snd (addAll fails k vs db))) \<Longrightarrow>
     v \<in> set (vaccinations_tbl db) \<or> (\<exists>r\<in>set vs. \<exists>i. v = r\<lparr>vacc_id := i\<rparr>)"
proof (induction vs arbitrary: k db)
  case Nil
  then show ?case by simp
next
  case (Cons r vs)
  show ?case
  proof (cases "fails k")
    case True
    then have "v \<in> set (vaccinations_tbl (snd (addAll fails (Suc k) vs db)))"
      using Cons.prems by (simp split: prod.splits)
    then show ?thesis using Cons.IH by fastforce
  next
    case False
    then have "v \<in> set (vaccinations_tbl (snd (addAll fails (Suc k) vs (vaccinations_add r db))))"
      using Cons.prems by simp
    then have "v \<in> set (vaccinations_tbl (vaccinations_add r db))
        \<or> (\<exists>r\<in>set vs. \<exists>i. v = r\<lparr>vacc_id := i\<rparr>)"
      by (rule Cons.IH)
    then show ?thesis
      by (auto simp: vaccinations_add_def)
  qed
qed

lemma saveImmunization_rows:
  assumes "v \<in> set (vaccinations_tbl (snd (snd
      (saveImmunization parse today fails c rows bookNextVisit nextVisitDate nextVisitVaccines db))))"
  shows "v \<in> set (vaccinations_tbl db)
     \<or> (\<exists>r\<in>set (saveRecords (child_id c) rows bookNextVisit nextVisitDate nextVisitVaccines).
           \<exists>i. v = r\<lparr>vacc_id := i\<rparr>)"
proof -
  let ?db1 = "vaccinations_deleteWhereChildId (child_id c) db"
  let ?records = "saveRecords (child_id c) rows bookNextVisit nextVisitDate nextVisitVaccines"
  let ?db2 = "snd (addAll fails 1 ?records ?db1)"
  have "v \<in> set (vaccinations_tbl db) \<or> v \<in> set (vaccinations_tbl ?db2)"
    using assms
    by (auto simp: saveImmunization_def Let_def children_updateIsDefaulter_def
        split: if_splits prod.splits)
  moreover have "set (vaccinations_tbl ?db1) \<subseteq> set (vaccinations_tbl db)"
    by (auto simp: vaccinations_deleteWhereChildId_def)
  ultimately show ?thesis
    using addAll_rows [of v fails 1 ?records ?db1] by blast
qed

text \<open>
  C4, as amended. Every row that a call of \<^verbatim>\<open>saveImmunization\<close> adds to the
  \<^verbatim>\<open>vaccinations\<close> table, whatever the outcome of the call, belongs to the child and
  satisfies: with \<open>dateGiven\<close> set, its status is \<open>completed\<close> and \<open>nextVisit\<close> is empty;
  with \<open>nextVisit\<close> set and \<open>dateGiven\<close> empty, its status is \<open>scheduled\<close>; with both
  empty, it comes from a dialog row with a batch number, a place or a remark filled in,
  and its status is \<open>pending\<close>.
\<close>

theorem persisted_dose_invariant:
  assumes "v \<in> set (vaccinations_tbl (snd (snd
      (saveImmunization parse today fails c rows bookNextVisit nextVisitDate nextVisitVaccines db))))"
    and "v \<notin> set (vaccinations_tbl db)"
  shows "childId v = child_id c
     \<and> (dateGiven v \<noteq> [] \<longrightarrow> status v = ''completed'' \<and> nextVisit v = [])
     \<and> (nextVisit v \<noteq> [] \<and> dateGiven v = [] \<longrightarrow> status v = ''scheduled'')
     \<and> (dateGiven v = [] \<and> nextVisit v = [] \<longrightarrow>
          status v = ''pending''
          \<and> (batchNumber v \<noteq> [] \<or> placeGiven v \<noteq> [] \<or> remarks v \<noteq> []))"
proof -
  obtain r i where r: "r \<in> set (saveRecords (child_id c) rows bookNextVisit nextVisitDate nextVisitVaccines)"
      and v: "v = r\<lparr>vacc_id := i\<rparr>"
    using saveImmunization_rows [OF assms(1)] assms(2) by blast
  show ?thesis
    using saveRecords_shape [OF r] by (simp add: v)
qed

text \<open>
  The theorem at a save of one given dose with a visit booked for 13 January, into a
  database without vaccination rows: the row added for the booking is scheduled.
\<close>

theorem persisted_dose_invariant_witness:
  "bookingRecord 1 ''2024-01-13'' ''OPV1 at 6 weeks'' \<lparr>vacc_id := 101\<rparr>
     \<in> set (vaccinations_tbl (snd (snd
          (saveImmunization parseDateInput noon10Jan (\<lambda>k. False) (exampleChild []) [bcgRow]
             True ''2024-01-13'' [''OPV1 at 6 weeks''] (exampleDb [])))))
   \<and> status (bookingRecord 1 ''2024-01-13'' ''OPV1 at 6 weeks'' \<lparr>vacc_id := 101\<rparr>) = ''scheduled''"
proof -
  let ?v = "bookingRecord 1 ''2024-01-13'' ''OPV1 at 6 weeks'' \<lparr>vacc_id := 101\<rparr>"
  have a: "?v \<in> set (vaccinations_tbl (snd (snd
          (saveImmunization parseDateInput noon10Jan (\<lambda>k. False) (exampleChild []) [bcgRow]
             True ''2024-01-13'' [''OPV1 at 6 weeks''] (exampleDb [])))))"
    by code_simp
  have b: "?v \<notin> set (vaccinations_tbl (exampleDb []))"
    by (simp add: exampleDb_def)
  have "nextVisit ?v \<noteq> [] \<and> dateGiven ?v = []"
    by (simp add: bookingRecord_def)
  then show ?thesis
    using persisted_dose_invariant [OF a b] a by blast
qed

text \<open>
  C4 as first stated has no row persisted with \<open>dateGiven\<close> and \<open>nextVisit\<close> both empty.
  A dialog row with nothing but a remark is saved, as a \<open>pending\<close> row.
\<close>

theorem pending_row_counterexample:
  "map (\<lambda>v. (vaccine v, dateGiven v, nextVisit v, remarks v, status v))
     (vaccinations_tbl (snd (snd
        (saveImmunization parseDateInput noon10Jan (\<lambda>k. False) (exampleChild []) [remarkOnlyRow]
           False [] [] (exampleDb [])))))
     = [(''Hepatitis B at Birth'', [], [], ''out of stock'', ''pending'')]
   \<and> fst (saveImmunization parseDateInput noon10Jan (\<lambda>k. False) (exampleChild []) [remarkOnlyRow]
           False [] [] (exampleDb [])) = Saved"
  by code_simp

text \<open>
  C2 fails on the code. The delete is a request of its own and commits before the adds
  are issued; nothing brings the deleted rows back when an add is rejected. Start from
  the example child with its BCG row and save the rows for BCG and OPV0. If every request
  after the delete is rejected, the call reports failure and the child is left with no
  row at all; if only the second add is rejected, the child is left with the BCG row
  alone, a part of the submitted set.
\<close>

theorem save_not_atomic:
  "vaccinations_whereChildId 1 (exampleDb [bcgGiven]) = [bcgGiven]
   \<and> fst (saveImmunization parseDateInput noon10Jan (\<lambda>k. 1 \<le> k) (exampleChild [bcgGiven])
          [bcgRow, opv0Row] False [] [] (exampleDb [bcgGiven])) = SaveFailed
   \<and> vaccinations_whereChildId 1 (snd (snd
        (saveImmunization parseDateInput noon10Jan (\<lambda>k. 1 \<le> k) (exampleChild [bcgGiven])
          [bcgRow, opv0Row] False [] [] (exampleDb [bcgGiven])))) = []
   \<and> fst (saveImmunization parseDateInput noon10Jan (\<lambda>k. k = 2) (exampleChild [bcgGiven])
          [bcgRow, opv0Row] False [] [] (exampleDb [bcgGiven])) = SaveFailed
   \<and> map vaccine (vaccinations_whereChildId 1 (snd (snd
        (saveImmunization parseDateInput noon10Jan (\<lambda>k. k = 2) (exampleChild [bcgGiven])
          [bcgRow, opv0Row] False [] [] (exampleDb [bcgGiven]))))) = [''BCG at Birth'']"
  by code_simp

text \<open>
  When no request is rejected the save does replace the child's rows by the submitted
  set, and the rows of other children stay as they were.
\<close>

lemma addAll_accepted:
  "\<not> fst (addAll fails k vs db) \<Longrightarrow>
     map (\<lambda>v. v\<lparr>vacc_id := 0\<rparr>) (vaccinations_tbl (snd (addAll fails k vs db)))
       = map (\<lambda>v. v\<lparr>vacc_id := 0\<rparr>) (vaccinations_tbl db) @ map (\<lambda>v. v\<lparr>vacc_id := 0\<rparr>) vs"
proof (induction vs arbitrary: k db)
  case Nil
  show ?case by simp
next
  case (Cons r vs)
  have ok: "\<not> fails k"
    using Cons.prems by (auto split: prod.splits)
  then have "\<not> fst (addAll fails (Suc k) vs (vaccinations_add r db))"
    using Cons.prems by simp
  then show ?case
    using ok Cons.IH [of "Suc k" "vaccinations_add r db"] by (simp add: vaccinations_add_def)
qed

lemma saveRecords_unkeyed:
  "map (\<lambda>v. v\<lparr>vacc_id := 0\<rparr>) (saveRecords cid rows b d vs) = saveRecords cid rows b d vs"
  by (simp add: saveRecords_def rowRecord_def bookingRecord_def)

lemma saveRecords_childId:
  "filter (\<lambda>v. childId v = cid) (saveRecords cid rows b d vs) = saveRecords cid rows b d vs"
  by (simp add: saveRecords_def rowRecord_def bookingRecord_def)

lemma saveImmunization_replaces:
  assumes "fst (saveImmunization parse today fails c rows b d vs db) = Saved"
  shows "map (\<lambda>v. v\<lparr>vacc_id := 0\<rparr>)
       (vaccinations_whereChildId (child_id c) (snd (snd (saveImmunization parse today fails c rows b d vs db))))
     = saveRecords (child_id c) rows b d vs"
proof -
  let ?db1 = "vaccinations_deleteWhereChildId (child_id c) db"
  let ?records = "saveRecords (child_id c) rows b d vs"
  let ?res = "addAll fails 1 ?records ?db1"
  have ok: "\<not> fst ?res"
    using assms by (auto simp: saveImmunization_def Let_def split: if_splits prod.splits)
  have tbl: "vaccinations_tbl (snd (snd (saveImmunization parse today fails c rows b d vs db)))
      = vaccinations_tbl (snd ?res)"
    using assms
    by (auto simp: saveImmunization_def Let_def children_updateIsDefaulter_def
        split: if_splits prod.splits)
  have "map (\<lambda>v. v\<lparr>vacc_id := 0\<rparr>) (filter (\<lambda>v. childId v = child_id c) (vaccinations_tbl (snd ?res)))
      = filter (\<lambda>v. childId v = child_id c) (map (\<lambda>v. v\<lparr>vacc_id := 0\<rparr>) (vaccinations_tbl (snd ?res)))"
    by (simp add: filter_map comp_def)
  also have "\<dots> = filter (\<lambda>v. childId v = child_id c)
      (map (\<lambda>v. v\<lparr>vacc_id := 0\<rparr>) (vaccinations_tbl ?db1) @ ?records)"
    by (simp only: addAll_accepted [OF ok] saveRecords_unkeyed)
  also have "\<dots> = ?records"
    by (simp add: vaccinations_deleteWhereChildId_def filter_map comp_def saveRecords_childId)
  finally show ?thesis
    by (simp add: vaccinations_whereChildId_def tbl)
qed

lemma snd_addAll_Cons:
  "snd (addAll fails k (v # vs) db) =
     (if fails k then snd (addAll fails (Suc k) vs db)
      else snd (addAll fails (Suc k) vs (vaccinations_add v db)))"
  by (simp split: prod.splits)

lemma saveImmunization_other_children:
  assumes "cid \<noteq> child_id c"
  shows "vaccinations_whereChildId cid (snd (snd (saveImmunization parse today fails c rows b d vs db)))
     = vaccinations_whereChildId cid db"
proof -
  have add: "filter (\<lambda>v. childId v = cid) (vaccinations_tbl (snd (addAll fails k rs db0)))
      = filter (\<lambda>v. childId v = cid) (vaccinations_tbl db0)"
    if "\<forall>r\<in>set rs. childId r \<noteq> cid" for k rs db0
    using that
  proof (induction rs arbitrary: k db0)
    case Nil
    show ?case by simp
  next
    case (Cons r rs)
    then show ?case
      by (simp add: snd_addAll_Cons vaccinations_add_def del: addAll.simps)
  qed
  have recs: "\<forall>r\<in>set (saveRecords (child_id c) rows b d vs). childId r \<noteq> cid"
    using assms by (auto simp: saveRecords_def rowRecord_def bookingRecord_def split: if_splits)
  have del: "filter (\<lambda>v. childId v = cid) (vaccinations_tbl (vaccinations_deleteWhereChildId (child_id c) db))
      = filter (\<lambda>v. childId v = cid) (vaccinations_tbl db)"
    using assms by (auto simp: vaccinations_deleteWhereChildId_def intro: filter_cong)
  show ?thesis
    using add [OF recs, of 1 "vaccinations_deleteWhereChildId (child_id c) db"] del
    by (auto simp: saveImmunization_def Let_def vaccinations_whereChildId_def
        children_updateIsDefaulter_def split: if_splits prod.splits)
qed

subsection \<open>The defaulter flag after a save\<close>





section \<open>Results about restore\<close>

lemma request_Inr:
  "request fails k op st = Inr db' \<Longrightarrow> \<exists>db0. st = Inr db0 \<and> op db0 = Inr db'"
  by (auto simp: request_def split: sum.splits if_splits)

text \<open>
  The body of the transaction on a document with both required keys: it completes
  exactly when no request is rejected and no two rows of a collection share a key, and
  then the three tables hold the rows of the document and nothing else.
\<close>

lemma restoreBody_result:
  assumes "doc_children data = Some cs" and "doc_vaccinations data = Some vs"
  shows "restoreBody fails data db =
     (if \<not> fails 0 \<and> \<not> fails 1 \<and> \<not> fails 2 \<and> \<not> fails 3 \<and> \<not> fails 4
          \<and> distinct (map child_id cs) \<and> distinct (map vacc_id vs)
          \<and> (case doc_facility data of None \<Rightarrow> True
               | Some fs \<Rightarrow> \<not> fails 5 \<and> distinct (map fr_id fs))
      then Inr (db\<lparr>children_tbl := sort_key child_id cs,
                  children_nextId := fold (\<lambda>c n. max n (Suc (child_id c))) cs (children_nextId db),
                  vaccinations_tbl := sort_key vacc_id vs,
                  vaccinations_nextId := fold (\<lambda>v n. max n (Suc (vacc_id v))) vs (vaccinations_nextId db),
                  facility_tbl := (case doc_facility data of None \<Rightarrow> [] | Some fs \<Rightarrow> sort_key fr_id fs)\<rparr>)
      else Inl (if fails 0 \<or> fails 1 \<or> fails 2 \<or> fails 3 then StorageError
                else if \<not> distinct (map child_id cs) then ConstraintError
                else if fails 4 then StorageError
                else if \<not> distinct (map vacc_id vs) then ConstraintError
                else if (case doc_facility data of None \<Rightarrow> False | Some fs \<Rightarrow> fails 5)
                then StorageError else ConstraintError))"
  using assms
  by (cases "doc_facility data")
    (simp_all add: restoreBody_def request_def children_clear_def vaccinations_clear_def
      facility_clear_def children_bulkAdd_def vaccinations_bulkAdd_def facility_bulkAdd_def)

text \<open>
  C8. A backup document without the \<open>children\<close> or without the \<open>vaccinations\<close> key is
  refused with \<open>FormatError\<close> and the database is the one from before. For a document with
  both keys the restore goes through exactly when the user confirms, no request is
  rejected and no two rows of a collection share a key; it then has cleared the three
  tables and filled them with the rows of the document, so that they hold exactly those
  rows, in key order (an absent \<open>facility\<close> key leaving that table empty). In every other
  case the database is the one from before: no state with some tables cleared or only
  some collections inserted is ever the result.
\<close>

theorem restore_all_or_nothing:
  "(doc_children data = None \<or> doc_vaccinations data = None \<longrightarrow>
      restore fails confirmed (Json data) db = (RestoreError FormatError, db))
   \<and> (doc_children data = Some cs \<and> doc_vaccinations data = Some vs \<longrightarrow>
        ((fst (restore fails confirmed (Json data) db) = Restored)
           = (confirmed \<and> \<not> fails 0 \<and> \<not> fails 1 \<and> \<not> fails 2 \<and> \<not> fails 3 \<and> \<not> fails 4
              \<and> distinct (map child_id cs) \<and> distinct (map vacc_id vs)
              \<and> (case doc_facility data of None \<Rightarrow> True
                   | Some fs \<Rightarrow> \<not> fails 5 \<and> distinct (map fr_id fs))))
        \<and> (fst (restore fails confirmed (Json data) db) = Restored \<longrightarrow>
             children_tbl (snd (restore fails confirmed (Json data) db)) = sort_key child_id cs
             \<and> vaccinations_tbl (snd (restore fails confirmed (Json data) db)) = sort_key vacc_id vs
             \<and> facility_tbl (snd (restore fails confirmed (Json data) db))
                 = (case doc_facility data of None \<Rightarrow> [] | Some fs \<Rightarrow> sort_key fr_id fs))
        \<and> (fst (restore fails confirmed (Json data) db) \<noteq> Restored \<longrightarrow>
             snd (restore fails confirmed (Json data) db) = db))"
proof -
  have missing: "doc_children data = None \<or> doc_vaccinations data = None \<longrightarrow>
      restore fails confirmed (Json data) db = (RestoreError FormatError, db)"
    by (simp add: restore_def)
  have present: "((fst (restore fails confirmed (Json data) db) = Restored)
           = (confirmed \<and> \<not> fails 0 \<and> \<not> fails 1 \<and> \<not> fails 2 \<and> \<not> fails 3 \<and> \<not> fails 4
              \<and> distinct (map child_id cs) \<and> distinct (map vacc_id vs)
              \<and> (case doc_facility data of None \<Rightarrow> True
                   | Some fs \<Rightarrow> \<not> fails 5 \<and> distinct (map fr_id fs))))
        \<and> (fst (restore fails confirmed (Json data) db) = Restored \<longrightarrow>
             children_tbl (snd (restore fails confirmed (Json data) db)) = sort_key child_id cs
             \<and> vaccinations_tbl (snd (restore fails confirmed (Json data) db)) = sort_key vacc_id vs
             \<and> facility_tbl (snd (restore fails confirmed (Json data) db))
                 = (case doc_facility data of None \<Rightarrow> [] | Some fs \<Rightarrow> sort_key fr_id fs))
        \<and> (fst (restore fails confirmed (Json data) db) \<noteq> Restored \<longrightarrow>
             snd (restore fails confirmed (Json data) db) = db)"
    if keys: "doc_children data = Some cs \<and> doc_vaccinations data = Some vs"
  proof -
    have cs: "doc_children data = Some cs" and vs: "doc_vaccinations data = Some vs"
      using keys by simp_all
    show ?thesis
      by (simp add: restore_def transaction_def restoreBody_result [OF cs vs] cs vs)
  qed
  show ?thesis
    using missing present by blast
qed

text \<open>
  The theorem at three restores into the database with rows in all three tables. A
  document without the vaccinations is refused and nothing changes. A complete document
  is restored: the child, the vaccination row and the facility name from before are gone
  and the rows of the document stand in their place, in key order. The same document
  with the fifth request rejected, after the three tables were cleared and the children
  added, leaves the database as it was.
\<close>

theorem restore_all_or_nothing_witness:
  "restore (\<lambda>k. False) True (Json backupWithoutVaccinations) stockedDb
     = (RestoreError FormatError, stockedDb)
   \<and> fst (restore (\<lambda>k. False) True (Json exampleBackup) stockedDb) = Restored
   \<and> children_tbl (snd (restore (\<lambda>k. False) True (Json exampleBackup) stockedDb)) = [esi, kofi]
   \<and> map vaccine (vaccinations_tbl (snd (restore (\<lambda>k. False) True (Json exampleBackup) stockedDb)))
       = [''BCG at Birth'', ''OPV1 at 6 weeks'']
   \<and> map fr_name (facility_tbl (snd (restore (\<lambda>k. False) True (Json exampleBackup) stockedDb)))
       = [''Demo Health Center'']
   \<and> restore (\<lambda>k. k = 4) True (Json exampleBackup) stockedDb
     = (RestoreError StorageError, stockedDb)"
proof -
  let ?cs = "[kofi, esi]"
  let ?vs = "[bookingRecord 5 ''2024-01-13'' ''OPV1 at 6 weeks'' \<lparr>vacc_id := 9\<rparr>,
         bcgGiven \<lparr>vacc_id := 3, childId := 2\<rparr>]"
  have a: "doc_children backupWithoutVaccinations = None \<or> doc_vaccinations backupWithoutVaccinations = None"
    by (simp add: backupWithoutVaccinations_def)
  have b: "doc_children exampleBackup = Some ?cs \<and> doc_vaccinations exampleBackup = Some ?vs"
    by (simp add: exampleBackup_def)
  have f: "doc_facility exampleBackup
      = Some [\<lparr>fr_id = 1, fr_name = ''Demo Health Center'', updatedAt = 1704067200000\<rparr>]"
    by (simp add: exampleBackup_def)
  have keys: "distinct (map child_id ?cs) \<and> distinct (map vacc_id ?vs)"
    by (simp add: kofi_def esi_def bookingRecord_def bcgGiven_def)
  have sorted: "sort_key child_id ?cs = [esi, kofi]"
      "map vaccine (sort_key vacc_id ?vs) = [''BCG at Birth'', ''OPV1 at 6 weeks'']"
    by (simp_all add: kofi_def esi_def bookingRecord_def bcgGiven_def)
  have refused: "restore (\<lambda>k. False) True (Json backupWithoutVaccinations) stockedDb
      = (RestoreError FormatError, stockedDb)"
    using restore_all_or_nothing [of backupWithoutVaccinations "\<lambda>k. False" True stockedDb] a
    by blast
  have ok: "fst (restore (\<lambda>k. False) True (Json exampleBackup) stockedDb) = Restored"
    using restore_all_or_nothing [of exampleBackup "\<lambda>k. False" True stockedDb ?cs ?vs] b keys
    by (simp add: f)
  have tables: "children_tbl (snd (restore (\<lambda>k. False) True (Json exampleBackup) stockedDb)) = [esi, kofi]
      \<and> map vaccine (vaccinations_tbl (snd (restore (\<lambda>k. False) True (Json exampleBackup) stockedDb)))
          = [''BCG at Birth'', ''OPV1 at 6 weeks'']
      \<and> map fr_name (facility_tbl (snd (restore (\<lambda>k. False) True (Json exampleBackup) stockedDb)))
          = [''Demo Health Center'']"
    using restore_all_or_nothing [of exampleBackup "\<lambda>k. False" True stockedDb ?cs ?vs] b ok sorted
    by (simp add: f)
  have "fst (restore (\<lambda>k. k = 4) True (Json exampleBackup) stockedDb) \<noteq> Restored"
    using restore_all_or_nothing [of exampleBackup "\<lambda>k. k = 4" True stockedDb ?cs ?vs] b
    by simp
  then have unchanged: "snd (restore (\<lambda>k. k = 4) True (Json exampleBackup) stockedDb) = stockedDb"
    using restore_all_or_nothing [of exampleBackup "\<lambda>k. k = 4" True stockedDb ?cs ?vs] b
    by blast
  have "fst (restore (\<lambda>k. k = 4) True (Json exampleBackup) stockedDb) = RestoreError StorageError"
    by code_simp
  then have rejected: "restore (\<lambda>k. k = 4) True (Json exampleBackup) stockedDb
      = (RestoreError StorageError, stockedDb)"
    using unchanged by (simp add: prod_eq_iff)
  show ?thesis
    using refused ok tables rejected by blast
qed

section \<open>Results about registration numbers\<close>

lemma regNoLoop_first_free:
  "\<exists>n\<ge>count. regNoLoop regNos year count = formatRegNo n year
      \<and> formatRegNo n year \<notin> set regNos
      \<and> (\<forall>k. count \<le> k \<and> k < n \<longrightarrow> formatRegNo k year \<in> set regNos)"
proof (induction regNos year count rule: regNoLoop.induct)
  case (1 regNos year count)
  show ?case
  proof (cases "formatRegNo count year \<in> set regNos")
    case False
    then have "regNoLoop regNos year count = formatRegNo count year"
      by (simp add: regNoLoop.simps [of regNos year count])
    then show ?thesis
      using False by (intro exI [of _ count]) auto
  next
    case True
    then obtain n where n: "Suc count \<le> n" "regNoLoop regNos year (Suc count) = formatRegNo n year"
        "formatRegNo n year \<notin> set regNos"
        "\<forall>k. Suc count \<le> k \<and> k < n \<longrightarrow> formatRegNo k year \<in> set regNos"
      using 1 by blast
    have loop: "regNoLoop regNos year count = formatRegNo n year"
      using True n(2) by (simp add: regNoLoop.simps [of regNos year count])
    have "\<forall>k. count \<le> k \<and> k < n \<longrightarrow> formatRegNo k year \<in> set regNos"
    proof (intro allI impI)
      fix k assume k: "count \<le> k \<and> k < n"
      show "formatRegNo k year \<in> set regNos"
      proof (cases "k = count")
        case True
        then show ?thesis using \<open>formatRegNo count year \<in> set regNos\<close> by simp
      next
        case False
        then have "Suc count \<le> k \<and> k < n" using k by simp
        then show ?thesis using n(4) by blast
      qed
    qed
    then show ?thesis
      using n(1) n(3) loop by (intro exI [of _ n]) simp
  qed
qed

lemma isDigit_digitChar: "d < 10 \<Longrightarrow> isDigit (digitChar d)"
  by (simp add: isDigit_def digitChar_def)

lemma digitsOf_digits: "list_all isDigit (digitsOf n)"
proof (induction n rule: digitsOf.induct)
  case (1 n)
  show ?case
  proof (cases "n < 10")
    case True
    then show ?thesis by (simp add: digitsOf.simps [of n] isDigit_digitChar)
  next
    case False
    then show ?thesis using 1 by (simp add: digitsOf.simps [of n] isDigit_digitChar)
  qed
qed

lemma length_digitsOf_le: "n < 10 ^ Suc k \<Longrightarrow> length (digitsOf n) \<le> Suc k"
proof (induction k arbitrary: n)
  case 0
  then show ?case by (simp add: digitsOf.simps [of n])
next
  case (Suc k)
  show ?case
  proof (cases "n < 10")
    case True
    then show ?thesis by (simp add: digitsOf.simps [of n])
  next
    case False
    have "n div 10 < 10 ^ Suc k"
      using Suc.prems by (simp add: less_mult_imp_div_less mult.commute)
    then have "length (digitsOf (n div 10)) \<le> Suc k"
      by (rule Suc.IH)
    then show ?thesis using False by (simp add: digitsOf.simps [of n])
  qed
qed

lemma length_digitsOf_gt: "10 ^ k \<le> n \<Longrightarrow> k < length (digitsOf n)"
proof (induction k arbitrary: n)
  case 0
  show ?case by (simp add: digitsOf.simps [of n])
next
  case (Suc k)
  then have big: "\<not> n < 10"
    by (metis One_nat_def Suc_leI not_less one_le_numeral one_le_power order_trans power_Suc mult.right_neutral mult_le_mono2 zero_less_Suc le_zero_eq not_less_eq_eq)
  have "10 ^ k \<le> n div 10"
    using Suc.prems by (simp add: less_eq_div_iff_mult_less_eq mult.commute)
  then have "k < length (digitsOf (n div 10))"
    by (rule Suc.IH)
  then show ?case using big by (simp add: digitsOf.simps [of n])
qed

lemma length_year:
  assumes "1000 \<le> year" and "year \<le> 9999"
  shows "length (StringOfInt year) = 4" and "list_all isDigit (StringOfInt year)"
proof -
  have n: "StringOfInt year = digitsOf (nat year)"
    using assms by (simp add: StringOfInt_def)
  have "nat year < 10 ^ Suc 3" and "10 ^ 3 \<le> nat year"
    using assms by simp_all
  then have "length (digitsOf (nat year)) \<le> Suc 3" and "3 < length (digitsOf (nat year))"
    using length_digitsOf_le [of "nat year" 3] length_digitsOf_gt [of 3 "nat year"] by blast+
  then show "length (StringOfInt year) = 4"
    by (simp add: n)
  show "list_all isDigit (StringOfInt year)"
    by (simp add: n digitsOf_digits)
qed

lemma padStart_digits:
  "list_all isDigit (padStart 3 (CHR ''0'') (digitsOf n))"
  "CHR ''/'' \<notin> set (padStart 3 (CHR ''0'') (digitsOf n))"
  "3 \<le> length (padStart 3 (CHR ''0'') (digitsOf n))"
  "n < 1000 \<Longrightarrow> length (padStart 3 (CHR ''0'') (digitsOf n)) = 3"
  "1000 \<le> n \<Longrightarrow> 3 < length (padStart 3 (CHR ''0'') (digitsOf n))"
proof -
  have zero: "isDigit (CHR ''0'')"
    by (simp add: isDigit_def)
  show "list_all isDigit (padStart 3 (CHR ''0'') (digitsOf n))"
    using zero digitsOf_digits [of n] by (auto simp: padStart_def list_all_iff)
  show "CHR ''/'' \<notin> set (padStart 3 (CHR ''0'') (digitsOf n))"
    using digitsOf_no_slash [of n] by (auto simp: padStart_def)
  show "3 \<le> length (padStart 3 (CHR ''0'') (digitsOf n))"
    by (simp add: padStart_def)
  show "length (padStart 3 (CHR ''0'') (digitsOf n)) = 3" if "n < 1000"
    using length_digitsOf_le [of n 2] that by (simp add: padStart_def)
  show "3 < length (padStart 3 (CHR ''0'') (digitsOf n))" if "1000 \<le> n"
    using length_digitsOf_gt [of 3 n] that by (simp add: padStart_def)
qed

lemma formatRegNo_patterns:
  assumes "1000 \<le> year" and "year \<le> 9999"
  shows "matchesWidePattern (formatRegNo n year)"
    and "n < 1000 \<Longrightarrow> matchesRegNoPattern (formatRegNo n year)"
    and "1000 \<le> n \<Longrightarrow> \<not> matchesRegNoPattern (formatRegNo n year)"
proof -
  let ?pad = "padStart 3 (CHR ''0'') (digitsOf n)"
  let ?y = "StringOfInt year"
  have f: "formatRegNo n year = ?pad @ CHR ''/'' # ?y"
    by (simp add: formatRegNo_def)
  have front: "takeWhile (\<lambda>c. c \<noteq> CHR ''/'') (formatRegNo n year) = ?pad"
    using padStart_digits(2) [of n] by (simp add: f takeWhile_append)
  have rear: "dropWhile (\<lambda>c. c \<noteq> CHR ''/'') (formatRegNo n year) = CHR ''/'' # ?y"
    using padStart_digits(2) [of n] by (simp add: f dropWhile_append)
  show "matchesWidePattern (formatRegNo n year)"
    unfolding matchesWidePattern_def Let_def front rear
    using padStart_digits(1,3) [of n] length_year [OF assms] by simp
  show "matchesRegNoPattern (formatRegNo n year)" if "n < 1000"
    unfolding matchesRegNoPattern_def f
    using padStart_digits(1) [of n] padStart_digits(4) [OF that] length_year [OF assms]
    by (simp add: nth_append)
  show "\<not> matchesRegNoPattern (formatRegNo n year)" if "1000 \<le> n"
    unfolding matchesRegNoPattern_def f
    using padStart_digits(5) [OF that] length_year [OF assms] by simp
qed

lemma registerChild_registered:
  assumes "fst (registerChild parse getFullYear now fails form children db) = Registered"
  shows "\<exists>c. fst (snd (registerChild parse getFullYear now fails form children db)) = c # children
        \<and> regNo c = generateRegNo getFullYear now children"
    and "map regNo (children_tbl (snd (snd (registerChild parse getFullYear now fails form children db))))
        = map regNo (children_tbl db) @ [generateRegNo getFullYear now children]"
  using assms
  by (auto simp: registerChild_def Let_def children_add_def split: if_splits)

text \<open>
  C5, as amended. The number \<^verbatim>\<open>generateRegNo\<close> returns is \<open>formatRegNo n year\<close> for the
  calendar year of \<open>now\<close> and the first sequence number \<open>n\<close>, counting up from the number
  of children created in that year plus one, whose registration number no child in the
  whole list has; so it differs from every existing registration number. For a
  four-digit year it matches \<^verbatim>\<open>^\d{3,}/\d{4}$\<close>, and it matches \<^verbatim>\<open>^\d{3}/\d{4}$\<close> exactly when
  the sequence number is below 1000. A registration that goes through gives this number
  to the new child, in the array and in the table, and registration numbers that were
  pairwise different stay so.
\<close>

theorem generateRegNo_first_free:
  "\<exists>n. generateRegNo getFullYear now children = formatRegNo n (getFullYear now)
     \<and> length (filter (\<lambda>c. getFullYear (case createdAt c of None \<Rightarrow> now | Some t \<Rightarrow> t)
                           = getFullYear now) children) + 1 \<le> n
     \<and> (\<forall>k. length (filter (\<lambda>c. getFullYear (case createdAt c of None \<Rightarrow> now | Some t \<Rightarrow> t)
                           = getFullYear now) children) + 1 \<le> k \<and> k < n
           \<longrightarrow> formatRegNo k (getFullYear now) \<in> regNo ` set children)
     \<and> generateRegNo getFullYear now children \<notin> regNo ` set children
     \<and> (1000 \<le> getFullYear now \<and> getFullYear now \<le> 9999 \<longrightarrow>
          matchesWidePattern (generateRegNo getFullYear now children)
          \<and> (matchesRegNoPattern (generateRegNo getFullYear now children) = (n < 1000)))
     \<and> (fst (registerChild parse getFullYear now fails form children db) = Registered \<longrightarrow>
          (\<exists>c. fst (snd (registerChild parse getFullYear now fails form children db)) = c # children
             \<and> regNo c = generateRegNo getFullYear now children)
          \<and> map regNo (children_tbl (snd (snd (registerChild parse getFullYear now fails form children db))))
              = map regNo (children_tbl db) @ [generateRegNo getFullYear now children])
     \<and> (distinct (map regNo children) \<longrightarrow>
          distinct (map regNo (fst (snd (registerChild parse getFullYear now fails form children db)))))"
proof -
  let ?year = "getFullYear now"
  let ?count = "length (filter (\<lambda>c. getFullYear (case createdAt c of None \<Rightarrow> now | Some t \<Rightarrow> t)
                           = ?year) children) + 1"
  have g: "generateRegNo getFullYear now children = regNoLoop (map regNo children) ?year ?count"
    by (simp add: generateRegNo_def Let_def)
  obtain n where n: "?count \<le> n" "regNoLoop (map regNo children) ?year ?count = formatRegNo n ?year"
      "formatRegNo n ?year \<notin> set (map regNo children)"
      "\<forall>k. ?count \<le> k \<and> k < n \<longrightarrow> formatRegNo k ?year \<in> set (map regNo children)"
    using regNoLoop_first_free [of ?count "map regNo children" ?year] by blast
  have eq: "generateRegNo getFullYear now children = formatRegNo n ?year"
    using g n(2) by simp
  have fresh: "generateRegNo getFullYear now children \<notin> regNo ` set children"
    using n(3) by (simp add: eq)
  have taken: "\<forall>k. ?count \<le> k \<and> k < n \<longrightarrow> formatRegNo k ?year \<in> regNo ` set children"
    using n(4) by simp
  have pat: "1000 \<le> ?year \<and> ?year \<le> 9999 \<longrightarrow>
      matchesWidePattern (generateRegNo getFullYear now children)
      \<and> (matchesRegNoPattern (generateRegNo getFullYear now children) = (n < 1000))"
    unfolding eq using formatRegNo_patterns [of ?year n] by (cases "n < 1000") auto
  have reg: "fst (registerChild parse getFullYear now fails form children db) = Registered \<longrightarrow>
      (\<exists>c. fst (snd (registerChild parse getFullYear now fails form children db)) = c # children
         \<and> regNo c = generateRegNo getFullYear now children)
      \<and> map regNo (children_tbl (snd (snd (registerChild parse getFullYear now fails form children db))))
          = map regNo (children_tbl db) @ [generateRegNo getFullYear now children]"
    by (simp add: registerChild_registered)
  have dist: "distinct (map regNo children) \<longrightarrow>
      distinct (map regNo (fst (snd (registerChild parse getFullYear now fails form children db))))"
    using fresh by (auto simp: registerChild_def Let_def children_add_def)
  show ?thesis
    using eq n(1) taken fresh pat reg dist by blast
qed

lemma utcFullYear_examples:
  "utcFullYear noon10Jan = 2024" "utcFullYear 1704067200000 = 2024"
  by code_simp+

lemma regNo_registerOf: "map regNo (registerOf n) = map (\<lambda>i. formatRegNo i 2024) (rev [1..<Suc n])"
  by (simp add: registerOf_def comp_def)

lemma generateRegNo_registerOf:
  "generateRegNo utcFullYear noon10Jan (registerOf n) = formatRegNo (Suc n) 2024"
proof -
  have count: "length (filter (\<lambda>c. utcFullYear (case createdAt c of None \<Rightarrow> noon10Jan | Some t \<Rightarrow> t)
      = 2024) (registerOf n)) = n"
    by (simp add: registerOf_def utcFullYear_examples comp_def)
  have "formatRegNo (Suc n) 2024 \<notin> set (map regNo (registerOf n))"
  proof
    assume "formatRegNo (Suc n) 2024 \<in> set (map regNo (registerOf n))"
    then have "formatRegNo (Suc n) 2024 \<in> (\<lambda>i. formatRegNo i 2024) ` set [1..<Suc n]"
      by (simp only: regNo_registerOf set_map set_rev)
    then obtain i where i: "i \<in> set [1..<Suc n]"
        and eq: "formatRegNo (Suc n) 2024 = formatRegNo i 2024"
      by (rule imageE)
    have "Suc n = i"
      using eq by (rule formatRegNo_inj)
    then show False
      using i by simp
  qed
  then have "regNoLoop (map regNo (registerOf n)) 2024 (Suc n) = formatRegNo (Suc n) 2024"
    by (simp add: regNoLoop.simps [of _ 2024 "Suc n"])
  then show ?thesis
    by (simp add: generateRegNo_def Let_def count utcFullYear_examples)
qed

text \<open>
  The theorem at a register of two children, with the runtime in UTC at noon on
  10 January 2024: the third registration number is \<open>003/2024\<close>, it matches the pattern,
  no child of the register has it, and registering a third child puts it in front.
\<close>

theorem generateRegNo_first_free_witness:
  "generateRegNo utcFullYear noon10Jan (registerOf 2) = ''003/2024''
   \<and> matchesRegNoPattern ''003/2024''
   \<and> ''003/2024'' \<notin> regNo ` set (registerOf 2)
   \<and> map regNo (fst (snd (registerChild parseDateInput utcFullYear noon10Jan (\<lambda>k. False)
         exampleForm (registerOf 2) (exampleDb []))))
       = [''003/2024'', ''002/2024'', ''001/2024'']"
proof -
  have r: "map regNo (fst (snd (registerChild parseDateInput utcFullYear noon10Jan (\<lambda>k. False)
         exampleForm (registerOf 2) (exampleDb []))))
       = [''003/2024'', ''002/2024'', ''001/2024'']"
    by code_simp
  have g: "generateRegNo utcFullYear noon10Jan (registerOf 2) = ''003/2024''"
    by code_simp
  have y: "1000 \<le> utcFullYear noon10Jan \<and> utcFullYear noon10Jan \<le> 9999"
    by (simp add: utcFullYear_examples)
  obtain n where n: "generateRegNo utcFullYear noon10Jan (registerOf 2) = formatRegNo n (utcFullYear noon10Jan)"
      and fresh: "generateRegNo utcFullYear noon10Jan (registerOf 2) \<notin> regNo ` set (registerOf 2)"
      and pat: "matchesRegNoPattern (generateRegNo utcFullYear noon10Jan (registerOf 2)) = (n < 1000)"
    using generateRegNo_first_free [of utcFullYear noon10Jan "registerOf 2"] y by blast
  have "formatRegNo 3 2024 = ''003/2024''"
    by code_simp
  then have "formatRegNo n 2024 = formatRegNo 3 2024"
    using n g by (simp only: utcFullYear_examples)
  then have "n = 3"
    by (rule formatRegNo_inj)
  then show ?thesis
    using g fresh pat r by simp
qed

text \<open>
  C5 as first stated has every registration number match \<^verbatim>\<open>^\d{3}/\d{4}$\<close>. With 999
  children registered in 2024 the next number is \<open>1000/2024\<close>, four digits before the
  slash.
\<close>

theorem generateRegNo_pattern_counterexample:
  "generateRegNo utcFullYear noon10Jan (registerOf 999) = ''1000/2024''
   \<and> \<not> matchesRegNoPattern ''1000/2024''"
proof -
  have "formatRegNo (Suc 999) 2024 = ''1000/2024''"
    by code_simp
  then have "generateRegNo utcFullYear noon10Jan (registerOf 999) = ''1000/2024''"
    by (simp only: generateRegNo_registerOf)
  moreover have "\<not> matchesRegNoPattern ''1000/2024''"
    by code_simp
  ultimately show ?thesis by blast
qed

end
